theory Spec2Isabelle
  imports Complex_Main
begin

section \<open>Nuake engine core: game state machine, frame loop and scene switching\<close>

text \<open>
  A shallow embedding of \<^verbatim>\<open>src/Nuake/Engine.cpp\<close>. The static fields of
  \<^verbatim>\<open>Engine\<close> form one record that every operation takes and returns. Calls into
  collaborators whose code is elsewhere (scene, physics, window, logger, subsystems, input,
  audio) are not executed: each is appended, in program order, to the field \<open>trace\<close>.
  The two fields that make up the state machine proper, \<open>gameState\<close> and
  \<open>queuedScene\<close>, also leave an entry in the trace on every assignment, so that the
  order of a write relative to the surrounding calls can be stated.

  In this record the \<^verbatim>\<open>float\<close> fields are exact real numbers, which serves the theorems
  on the calls of an operation and their order. The values of these fields, the number of
  fixed updates of a frame and the end of its loop depend on the rounding of the machine;
  they are treated on a second model, of the timing fields alone, in binary32 (below, in
  the part on the timing fields in binary32).
  A \<^verbatim>\<open>Ref<T>\<close> that may be null is an \<open>option\<close>; dereferencing a null one ends the
  operation with \<open>Crash\<close>, which keeps the state reached so far.
\<close>

subsection \<open>Data\<close>

text \<open>
  Modelled from the spec: the enum \<^verbatim>\<open>GameState\<close> is declared in \<^verbatim>\<open>Engine.h\<close>,
  which is not among the sources; the spec lists the states Stopped, Loading and Playing.
\<close>

datatype GameState = Stopped | Loading | Playing

text \<open>
  A scene object as far as the engine touches it: the \<^verbatim>\<open>Path\<close> field that
  \<^verbatim>\<open>Tick\<close> assigns and the document that \<^verbatim>\<open>Deserialize\<close> loaded into it.
\<close>

record scene =
  Path :: string
  document :: string

text \<open>
  A scripted subsystem: its managed type's full name, the index stored in its
  \<^verbatim>\<open>EngineSubsystemID\<close> property and what its \<^verbatim>\<open>CanEverTick()\<close> answers.
\<close>

record subsystem =
  typeName :: string
  EngineSubsystemID :: nat
  CanEverTick :: bool

datatype severity = LOG | WARNING | CRITICAL

datatype event =
    JobSystem_Update
  | Scene_OnInit scene
  | Scene_OnExit scene
  | Scene_EditorUpdate scene real
  | Scene_OnPreInitialize_AddStatic scene
  | Scene_OnPostInitialize_AddStatic scene
  | Window_SetScene "scene option"
  | Window_Update real
  | Window_FixedUpdate real
  | PhysicsManager_Init
  | PhysicsManager_ReInit
  | Logger_Log severity string
  | Input_Init
  | Input_ShowMouse
  | Input_Update
  | AudioManager_Initialize
  | AudioManager_AudioUpdate
  | NavManager_Initialize
  | Renderer2D_Init
  | RegisterCoreComponents
  | Modules_StartupModules
  | ScriptingEngineNet_OnGameAssemblyLoaded_AddStatic
  | Subsystem_Initialize subsystem
  | Subsystem_Tick subsystem real
  | Subsystem_OnScenePreDestroy subsystem "scene option"
  | Subsystem_OnScenePreInitialize subsystem scene
  | Subsystem_OnScenePostInitialize subsystem scene
  | Write_gameState GameState
  | Write_queuedScene string

text \<open>
  The handlers that can sit on the window's \<^verbatim>\<open>OnWindowSetScene()\<close> delegate. The
  only one this file ever mentions is \<^verbatim>\<open>Engine::OnWindowSetScene\<close>.
\<close>

datatype handler = Engine_OnWindowSetScene

text \<open>
  Modelled from the spec: the class \<^verbatim>\<open>Window\<close> is not among the sources. The engine
  uses three things of it: \<^verbatim>\<open>GetScene()\<close>, \<^verbatim>\<open>SetScene(scene)\<close> and the delegate
  \<^verbatim>\<open>OnWindowSetScene()\<close> that handlers are added to with \<^verbatim>\<open>AddStatic\<close>.
\<close>

record window =
  windowScene :: "scene option"
  windowSetSceneDelegate :: "handler list"

record engine =
  currentWindow :: "window option"
  queuedScene :: string
  gameState :: GameState
  lastFrameTime :: real
  fixedUpdateRate :: real
  fixedUpdateDifference :: real
  time :: real
  timeStep :: real
  timeScale :: real
  subsystems :: "subsystem option list"
  scriptedSubsystemMap :: "string \<rightharpoonup> subsystem"
  trace :: "event list"

text \<open>
  What the engine asks of the file system, the JSON parser and a scene's \<^verbatim>\<open>OnInit\<close>:
  \<open>jsonParses c\<close> is false when \<^verbatim>\<open>json::parse(c)\<close> throws, and \<open>OnInit sc\<close> is the
  boolean that \<^verbatim>\<open>sc->OnInit()\<close> returns.
\<close>

record env =
  FileExists :: "string \<Rightarrow> bool"
  ReadFile :: "string \<Rightarrow> string"
  jsonParses :: "string \<Rightarrow> bool"
  OnInit :: "scene \<Rightarrow> bool"

datatype error = NullWindow | NullScene | JsonParseError

datatype outcome = Done engine | Crash error engine

fun final :: "outcome \<Rightarrow> engine" where
  "final (Done s) = s"
| "final (Crash e s) = s"

text \<open>The static initialisers at the top of the file.\<close>

definition initial :: engine where
  "initial =
     \<lparr>currentWindow = None, queuedScene = [], gameState = Stopped,
      lastFrameTime = 0, fixedUpdateRate = 1 / 90, fixedUpdateDifference = 0,
      time = 0, timeStep = 0, timeScale = 1,
      subsystems = [], scriptedSubsystemMap = Map.empty, trace = []\<rparr>"

subsection \<open>Accessors\<close>

definition emit :: "event \<Rightarrow> engine \<Rightarrow> engine" where
  "emit e s = s\<lparr>trace := trace s @ [e]\<rparr>"

definition emits :: "event list \<Rightarrow> engine \<Rightarrow> engine" where
  "emits es s = s\<lparr>trace := trace s @ es\<rparr>"

text \<open>
  Modelled from the spec: \<^verbatim>\<open>IsPlayMode\<close>, \<^verbatim>\<open>GetGameState\<close> and
  \<^verbatim>\<open>SetGameState\<close> are defined in \<^verbatim>\<open>Engine.h\<close>, which is not among the sources.
  The spec: only \<open>Playing\<close> permits scene-switch queueing and subsystem ticking.
\<close>

definition IsPlayMode :: "engine \<Rightarrow> bool" where
  "IsPlayMode s = (gameState s = Playing)"

definition GetGameState :: "engine \<Rightarrow> GameState" where
  "GetGameState s = gameState s"

definition SetGameState :: "GameState \<Rightarrow> engine \<Rightarrow> engine" where
  "SetGameState g s = emit (Write_gameState g) (s\<lparr>gameState := g\<rparr>)"

definition GetCurrentScene :: "engine \<Rightarrow> scene option" where
  "GetCurrentScene s =
     (case currentWindow s of None \<Rightarrow> None | Some w \<Rightarrow> windowScene w)"

subsection \<open>Broadcasts to the subsystems\<close>

text \<open>The loop \<^verbatim>\<open>for (auto subsystem : subsystems)\<close> that skips null entries.\<close>

fun forEachSubsystem :: "(subsystem \<Rightarrow> event list) \<Rightarrow> subsystem option list \<Rightarrow> event list" where
  "forEachSubsystem f [] = []"
| "forEachSubsystem f (None # subs) = forEachSubsystem f subs"
| "forEachSubsystem f (Some sub # subs) = f sub @ forEachSubsystem f subs"

definition OnWindowSetScene :: "scene option \<Rightarrow> scene option \<Rightarrow> engine \<Rightarrow> engine" where
  "OnWindowSetScene oldScene newScene s =
     (let s1 = emits (forEachSubsystem (\<lambda>sub. [Subsystem_OnScenePreDestroy sub oldScene])
                        (subsystems s)) s
      in case newScene of
           None \<Rightarrow> s1
         | Some n \<Rightarrow>
             emit (Scene_OnPostInitialize_AddStatic n)
               (emit (Scene_OnPreInitialize_AddStatic n) s1))"

definition OnScenePreInitialize :: "scene \<Rightarrow> engine \<Rightarrow> engine" where
  "OnScenePreInitialize sc s =
     emits (forEachSubsystem (\<lambda>sub. [Subsystem_OnScenePreInitialize sub sc]) (subsystems s)) s"

definition OnScenePostInitialize :: "scene \<Rightarrow> engine \<Rightarrow> engine" where
  "OnScenePostInitialize sc s =
     emits (forEachSubsystem (\<lambda>sub. [Subsystem_OnScenePostInitialize sub sc]) (subsystems s)) s"

subsection \<open>Window\<close>

fun runHandler :: "handler \<Rightarrow> scene option \<Rightarrow> scene option \<Rightarrow> engine \<Rightarrow> engine" where
  "runHandler Engine_OnWindowSetScene oldScene newScene s = OnWindowSetScene oldScene newScene s"

text \<open>
  Modelled from the spec: \<^verbatim>\<open>Window::SetScene\<close> is not among the sources. Following
  the spec (handlers are told of the old scene "before the swap is visible") it first runs
  the handlers registered on its delegate with the old and the new scene and then replaces
  its scene. Its boolean result is not modelled.
\<close>

definition Window_SetScene_impl :: "window \<Rightarrow> scene option \<Rightarrow> engine \<Rightarrow> engine" where
  "Window_SetScene_impl w newScene s =
     (let s1 = fold (\<lambda>h. runHandler h (windowScene w) newScene) (windowSetSceneDelegate w) s
      in emit (Window_SetScene newScene)
           (s1\<lparr>currentWindow := Some (w\<lparr>windowScene := newScene\<rparr>)\<rparr>))"

definition SetCurrentScene :: "scene option \<Rightarrow> engine \<Rightarrow> outcome" where
  "SetCurrentScene sc s =
     (case currentWindow s of
        None \<Rightarrow> Crash NullWindow s
      | Some w \<Rightarrow> Done (Window_SetScene_impl w sc s))"

subsection \<open>Init\<close>

text \<open>
  \<^verbatim>\<open>Engine::Init\<close>; \<open>w\<close> is the window that \<^verbatim>\<open>Window::Get()\<close> returns. The first
  statement of the source, which would add \<^verbatim>\<open>Engine::OnWindowSetScene\<close> to the
  window's delegate, is commented out there, so the model leaves the delegate as it is.
  \<^verbatim>\<open>InitializeCoreSubsystems\<close> has an empty body.
\<close>

definition InitializeCoreSubsystems :: "engine \<Rightarrow> engine" where
  "InitializeCoreSubsystems s = s"

definition Init :: "window \<Rightarrow> engine \<Rightarrow> engine" where
  "Init w s =
     (let s1 = emits [ScriptingEngineNet_OnGameAssemblyLoaded_AddStatic,
                      AudioManager_Initialize, PhysicsManager_Init, NavManager_Initialize] s;
          s2 = s1\<lparr>currentWindow := Some w\<rparr>;
          s3 = emits [Input_Init, Renderer2D_Init, Logger_Log LOG ''Engine initialized'',
                      RegisterCoreComponents, Modules_StartupModules] s2
      in InitializeCoreSubsystems s3)"

subsection \<open>Play mode\<close>

definition EnterPlayMode :: "env \<Rightarrow> real \<Rightarrow> engine \<Rightarrow> outcome" where
  "EnterPlayMode e now s =
     (let s1 = s\<lparr>lastFrameTime := now\<rparr> in
      if GetGameState s1 = Playing \<or> GetGameState s1 = Loading
      then Done (emit (Logger_Log WARNING
             ''Cannot enter play mode if is already in play mode or is loading.'') s1)
      else
        let s2 = SetGameState Loading s1;
            s3 = emit PhysicsManager_ReInit s2
        in case GetCurrentScene s3 of
             None \<Rightarrow> Crash NullScene s3
           | Some sc \<Rightarrow>
               let s4 = emit (Scene_OnInit sc) s3 in
               if OnInit e sc then Done (SetGameState Playing s4)
               else Done (emit (Scene_OnExit sc)
                      (emit (Logger_Log CRITICAL
                         ''Cannot enter play mode. Scene OnInit failed'') s4)))"

definition ExitPlayMode :: "engine \<Rightarrow> outcome" where
  "ExitPlayMode s =
     (if gameState s \<noteq> Stopped
      then case GetCurrentScene s of
             None \<Rightarrow> Crash NullScene s
           | Some sc \<Rightarrow>
               Done (emit (Write_gameState Stopped)
                 ((emit Input_ShowMouse (emit (Scene_OnExit sc) s))\<lparr>gameState := Stopped\<rparr>))
      else Done s)"

definition QueueSceneSwitch :: "string \<Rightarrow> engine \<Rightarrow> bool \<times> engine" where
  "QueueSceneSwitch scenePath s =
     (if \<not> IsPlayMode s then (False, s)
      else (True, emit (Write_queuedScene scenePath) (s\<lparr>queuedScene := scenePath\<rparr>)))"

subsection \<open>Tick\<close>

text \<open>\<^verbatim>\<open>Scene::New()\<close>: a fresh, empty scene.\<close>

definition Scene_New :: scene where
  "Scene_New = \<lparr>Path = [], document = []\<rparr>"

text \<open>
  Lines 75 to 100: the queued scene switch. \<^verbatim>\<open>json::parse\<close> throwing leaves
  \<^verbatim>\<open>Tick\<close> through the exception.
\<close>

definition switchQueuedScene :: "env \<Rightarrow> engine \<Rightarrow> outcome" where
  "switchQueuedScene e s =
     (if IsPlayMode s then
        if queuedScene s \<noteq> [] then
          let nextScene = Scene_New in
          if FileExists e (queuedScene s) then
            let fileContent = ReadFile e (queuedScene s);
                nextScene1 = nextScene\<lparr>Path := queuedScene s\<rparr>
            in if \<not> jsonParses e fileContent then Crash JsonParseError s
               else
                 let nextScene2 = nextScene1\<lparr>document := fileContent\<rparr> in
                 case GetCurrentScene s of
                   None \<Rightarrow> Crash NullScene s
                 | Some cur \<Rightarrow>
                     (case SetCurrentScene (Some nextScene2) (emit (Scene_OnExit cur) s) of
                        Crash err s2 \<Rightarrow> Crash err s2
                      | Done s2 \<Rightarrow>
                          let s3 = emit PhysicsManager_ReInit s2 in
                          (case GetCurrentScene s3 of
                             None \<Rightarrow> Crash NullScene s3
                           | Some sc \<Rightarrow>
                               Done (emit (Write_queuedScene [])
                                 ((emit (Scene_OnInit sc) s3)\<lparr>queuedScene := []\<rparr>))))
          else Done s
        else Done s
      else Done s)"

text \<open>Lines 105 to 117: the subsystem ticks.\<close>

definition tickSubsystems :: "real \<Rightarrow> engine \<Rightarrow> engine" where
  "tickSubsystems scaledTimeStep s =
     (if IsPlayMode s
      then emits (forEachSubsystem
                    (\<lambda>sub. if CanEverTick sub then [Subsystem_Tick sub scaledTimeStep] else [])
                    (subsystems s)) s
      else s)"

text \<open>
  Lines 133 to 138: the fixed update loop. Nothing in the source bounds it, so the model
  is a partial function: \<open>None\<close> is the loop that never ends.
\<close>

partial_function (option) fixedUpdateLoop :: "engine \<Rightarrow> engine option" where
  "fixedUpdateLoop s =
     (if fixedUpdateDifference s \<ge> fixedUpdateRate s
      then fixedUpdateLoop
             ((emit (Window_FixedUpdate (fixedUpdateRate s * timeScale s)) s)
                \<lparr>fixedUpdateDifference := fixedUpdateDifference s - fixedUpdateRate s\<rparr>)
      else Some s)"

text \<open>Lines 119 to 142: the update of the installed scene.\<close>

definition updateScene :: "real \<Rightarrow> engine \<Rightarrow> outcome option" where
  "updateScene scaledTimeStep s =
     (case currentWindow s of
        None \<Rightarrow> Some (Crash NullWindow s)
      | Some w \<Rightarrow>
          (case windowScene w of
             None \<Rightarrow> Some (Done s)
           | Some sc \<Rightarrow>
               let s1 = emit (Window_Update scaledTimeStep) s;
                   s2 = (if \<not> IsPlayMode s1 then emit (Scene_EditorUpdate sc scaledTimeStep) s1
                         else s1);
                   s3 = s2\<lparr>fixedUpdateDifference := fixedUpdateDifference s2 + timeStep s2\<rparr>
               in (case fixedUpdateLoop s3 of
                     None \<Rightarrow> None
                   | Some s4 \<Rightarrow>
                       Some (Done (emit AudioManager_AudioUpdate (emit Input_Update s4))))))"

text \<open>\<^verbatim>\<open>Engine::Tick\<close>; \<open>now\<close> is what \<^verbatim>\<open>glfwGetTime()\<close> returns.\<close>

definition Tick :: "env \<Rightarrow> real \<Rightarrow> engine \<Rightarrow> outcome option" where
  "Tick e now s =
     (let s1 = emit JobSystem_Update s;
          s2 = s1\<lparr>time := now, timeStep := now - lastFrameTime s1, lastFrameTime := now\<rparr>
      in case switchQueuedScene e s2 of
           Crash err s3 \<Rightarrow> Some (Crash err s3)
         | Done s3 \<Rightarrow>
             let scaledTimeStep = timeStep s3 * timeScale s3
             in updateScene scaledTimeStep (tickSubsystems scaledTimeStep s3))"


subsection \<open>Scripted subsystems\<close>

text \<open>
  A type of the game assembly as \<^verbatim>\<open>OnScriptingEngineGameAssemblyLoaded\<close> sees it: its
  full name, whether it is a subclass of \<^verbatim>\<open>Nuake.Net.EngineSubsystem\<close>, and whether an
  instance of it answers true to \<^verbatim>\<open>CanEverTick()\<close>.
\<close>

record managedType =
  GetFullName :: string
  IsSubclassOfEngineSubsystem :: bool
  instanceCanEverTick :: bool

fun createSubsystems :: "managedType list \<Rightarrow> engine \<Rightarrow> engine" where
  "createSubsystems [] s = s"
| "createSubsystems (ty # types) s =
     (if IsSubclassOfEngineSubsystem ty then
        let name = GetFullName ty;
            s1 = emit (Logger_Log LOG (''Creating Scripted Subsystem '' @ name)) s;
            subsystemScript =
              \<lparr>typeName = name, EngineSubsystemID = length (subsystems s1),
               CanEverTick = instanceCanEverTick ty\<rparr>;
            s2 = s1\<lparr>subsystems := subsystems s1 @ [Some subsystemScript],
                   scriptedSubsystemMap := (scriptedSubsystemMap s1)(name \<mapsto> subsystemScript)\<rparr>
        in createSubsystems types (emit (Subsystem_Initialize subsystemScript) s2)
      else createSubsystems types s)"

definition OnScriptingEngineGameAssemblyLoaded :: "managedType list \<Rightarrow> engine \<Rightarrow> engine" where
  "OnScriptingEngineGameAssemblyLoaded types s =
     (if \<not> IsPlayMode s \<and> GetGameState s \<noteq> Loading then s
      else createSubsystems types (s\<lparr>subsystems := [], scriptedSubsystemMap := Map.empty\<rparr>))"

subsection \<open>Sequences of play-mode calls\<close>

text \<open>
  A call of \<^verbatim>\<open>EnterPlayMode\<close> comes with the environment it runs in (what
  \<^verbatim>\<open>OnInit\<close> returns this time) and the clock reading it gets.
\<close>

datatype call = Call_EnterPlayMode env real | Call_ExitPlayMode

fun step :: "call \<Rightarrow> engine \<Rightarrow> outcome" where
  "step (Call_EnterPlayMode e now) s = EnterPlayMode e now s"
| "step Call_ExitPlayMode s = ExitPlayMode s"

text \<open>A crash ends the run: the process is gone.\<close>

fun run :: "call list \<Rightarrow> engine \<Rightarrow> outcome" where
  "run [] s = Done s"
| "run (c # cs) s =
     (case step c s of
        Crash err s1 \<Rightarrow> Crash err s1
      | Done s1 \<Rightarrow> run cs s1)"

subsection \<open>Reading the trace\<close>

text \<open>The events an operation added when it took the engine from \<open>s\<close> to \<open>s'\<close>.\<close>

definition newEvents :: "engine \<Rightarrow> engine \<Rightarrow> event list" where
  "newEvents s s' = drop (length (trace s)) (trace s')"

fun gameStateWrite :: "event \<Rightarrow> GameState list" where
  "gameStateWrite (Write_gameState g) = [g]"
| "gameStateWrite _ = []"

definition gameStateWrites :: "event list \<Rightarrow> GameState list" where
  "gameStateWrites evs = concat (map gameStateWrite evs)"

text \<open>The graph of section 4.1 of the spec.\<close>

fun edge :: "GameState \<Rightarrow> GameState \<Rightarrow> bool" where
  "edge Stopped Loading = True"
| "edge Loading Playing = True"
| "edge Playing Stopped = True"
| "edge Loading Stopped = True"
| "edge _ _ = False"

fun followsGraph :: "GameState \<Rightarrow> GameState list \<Rightarrow> bool" where
  "followsGraph g [] = True"
| "followsGraph g (g' # gs) = (edge g g' \<and> followsGraph g' gs)"

fun isOnInit :: "event \<Rightarrow> bool" where
  "isOnInit (Scene_OnInit sc) = True"
| "isOnInit _ = False"

fun isOnExit :: "event \<Rightarrow> bool" where
  "isOnExit (Scene_OnExit sc) = True"
| "isOnExit _ = False"

fun isLog :: "event \<Rightarrow> bool" where
  "isLog (Logger_Log sev msg) = True"
| "isLog _ = False"

fun isFixedUpdate :: "event \<Rightarrow> bool" where
  "isFixedUpdate (Window_FixedUpdate dt) = True"
| "isFixedUpdate _ = False"

text \<open>
  The events of a scene switch: scene exit and init, installation in the window, physics
  reinitialisation and the write to the pending path.
\<close>

fun isSwitchEvent :: "event \<Rightarrow> bool" where
  "isSwitchEvent (Scene_OnInit sc) = True"
| "isSwitchEvent (Scene_OnExit sc) = True"
| "isSwitchEvent (Window_SetScene sc) = True"
| "isSwitchEvent PhysicsManager_ReInit = True"
| "isSwitchEvent (Write_queuedScene p) = True"
| "isSwitchEvent _ = False"

text \<open>The broadcasts of a scene boundary to the subsystems.\<close>

fun isSceneBroadcast :: "event \<Rightarrow> bool" where
  "isSceneBroadcast (Subsystem_OnScenePreDestroy sub sc) = True"
| "isSceneBroadcast (Subsystem_OnScenePreInitialize sub sc) = True"
| "isSceneBroadcast (Subsystem_OnScenePostInitialize sub sc) = True"
| "isSceneBroadcast (Scene_OnPreInitialize_AddStatic sc) = True"
| "isSceneBroadcast (Scene_OnPostInitialize_AddStatic sc) = True"
| "isSceneBroadcast _ = False"

subsection \<open>The fixed update loop in closed form\<close>

text \<open>
  The state after \<open>n\<close> iterations of the loop, and the number of iterations the loop makes
  when the rate is positive.
\<close>

definition drained :: "nat \<Rightarrow> engine \<Rightarrow> engine" where
  "drained n s =
     s\<lparr>trace := trace s @ replicate n (Window_FixedUpdate (fixedUpdateRate s * timeScale s)),
       fixedUpdateDifference := fixedUpdateDifference s - real n * fixedUpdateRate s\<rparr>"

definition iterations :: "engine \<Rightarrow> nat" where
  "iterations s = nat \<lfloor>fixedUpdateDifference s / fixedUpdateRate s\<rfloor>"

subsection \<open>Closed forms of the parts of a frame\<close>

text \<open>The events of one call of \<^verbatim>\<open>OnWindowSetScene\<close>.\<close>

definition handlerEvents :: "subsystem option list \<Rightarrow> scene option \<Rightarrow> scene option \<Rightarrow> event list" where
  "handlerEvents subs oldScene newScene =
     forEachSubsystem (\<lambda>sub. [Subsystem_OnScenePreDestroy sub oldScene]) subs @
     (case newScene of
        None \<Rightarrow> []
      | Some n \<Rightarrow> [Scene_OnPreInitialize_AddStatic n, Scene_OnPostInitialize_AddStatic n])"

text \<open>The events of the subsystem ticks of one frame.\<close>

definition tickEvents :: "real \<Rightarrow> engine \<Rightarrow> event list" where
  "tickEvents dt s =
     (if gameState s = Playing
      then forEachSubsystem (\<lambda>sub. if CanEverTick sub then [Subsystem_Tick sub dt] else [])
             (subsystems s)
      else [])"

text \<open>The engine after the first four statements of \<^verbatim>\<open>Tick\<close>.\<close>

definition clocked :: "real \<Rightarrow> engine \<Rightarrow> engine" where
  "clocked now s =
     s\<lparr>time := now, timeStep := now - lastFrameTime s, lastFrameTime := now,
       trace := trace s @ [JobSystem_Update]\<rparr>"

text \<open>The events of all handlers on the delegate of window \<open>w\<close>, run for one \<^verbatim>\<open>SetScene\<close>.\<close>

definition delegateEvents :: "window \<Rightarrow> subsystem option list \<Rightarrow> scene option \<Rightarrow> event list" where
  "delegateEvents w subs newScene =
     concat (map (\<lambda>h. handlerEvents subs (windowScene w) newScene) (windowSetSceneDelegate w))"

text \<open>
  The engine after a queued scene switch that found its file, out of window \<open>w\<close> with
  scene \<open>old\<close>.
\<close>

definition switched :: "env \<Rightarrow> window \<Rightarrow> scene \<Rightarrow> engine \<Rightarrow> engine" where
  "switched e w old s =
     (let new = \<lparr>Path = queuedScene s, document = ReadFile e (queuedScene s)\<rparr> in
      s\<lparr>currentWindow := Some (w\<lparr>windowScene := Some new\<rparr>),
        queuedScene := [],
        trace := trace s @ [Scene_OnExit old] @ delegateEvents w (subsystems s) (Some new) @
                 [Window_SetScene (Some new), PhysicsManager_ReInit, Scene_OnInit new,
                  Write_queuedScene []]\<rparr>)"

text \<open>The engine after the update of the installed scene \<open>sc\<close>, when the rate is positive.\<close>

definition updated :: "real \<Rightarrow> scene \<Rightarrow> engine \<Rightarrow> engine" where
  "updated dt sc s =
     (let acc = fixedUpdateDifference s + timeStep s;
          n = nat \<lfloor>acc / fixedUpdateRate s\<rfloor>
      in s\<lparr>fixedUpdateDifference := acc - real n * fixedUpdateRate s,
           trace := trace s @ [Window_Update dt] @
                    (if gameState s \<noteq> Playing then [Scene_EditorUpdate sc dt] else []) @
                    replicate n (Window_FixedUpdate (fixedUpdateRate s * timeScale s)) @
                    [Input_Update, AudioManager_AudioUpdate]\<rparr>)"

subsection \<open>Frames\<close>


subsection \<open>Paths of the state machine\<close>

text \<open>
  \<open>pathOf s s'\<close>: the engine got from \<open>s\<close> to \<open>s'\<close> by adding events, the writes to
  \<open>gameState\<close> among them follow the graph from the state of \<open>s\<close>, and the last one is
  the state of \<open>s'\<close>.
\<close>

definition pathOf :: "engine \<Rightarrow> engine \<Rightarrow> bool" where
  "pathOf s s' =
     (\<exists>evs. trace s' = trace s @ evs \<and>
            followsGraph (gameState s) (gameStateWrites evs) \<and>
            gameState s' = last (gameState s # gameStateWrites evs))"

subsection \<open>Example inputs\<close>

definition sceneA :: scene where
  "sceneA = \<lparr>Path = ''a.scene'', document = ''{a}''\<rparr>"

definition sceneB :: scene where
  "sceneB = \<lparr>Path = ''b.scene'', document = ''{b}''\<rparr>"

text \<open>A window as \<^verbatim>\<open>Window::Get()\<close> first returns it: no scene, no handler.\<close>

definition window0 :: window where
  "window0 = \<lparr>windowScene = None, windowSetSceneDelegate = []\<rparr>"

text \<open>A file system that holds \<^verbatim>\<open>b.scene\<close> only; every scene initialises.\<close>

definition env0 :: env where
  "env0 = \<lparr>FileExists = (\<lambda>p. p = ''b.scene''), ReadFile = (\<lambda>p. ''{b}''),
           jsonParses = (\<lambda>c. True), OnInit = (\<lambda>sc. True)\<rparr>"

text \<open>The same, but no scene initialises.\<close>

definition envBad :: env where
  "envBad = env0\<lparr>OnInit := (\<lambda>sc. False)\<rparr>"

text \<open>The engine after \<^verbatim>\<open>Init\<close> and the installation of a first scene.\<close>

definition ready :: engine where
  "ready = final (SetCurrentScene (Some sceneA) (Init window0 initial))"

text \<open>The same engine in play mode, entered at clock reading 1.\<close>

definition playing0 :: engine where
  "playing0 = final (EnterPlayMode env0 1 ready)"



text \<open>A game assembly with one subsystem type, and the subsystem made of it.\<close>

definition gameAssembly0 :: "managedType list" where
  "gameAssembly0 =
     [\<lparr>GetFullName = ''Game.Weather'', IsSubclassOfEngineSubsystem = True,
       instanceCanEverTick = True\<rparr>]"

definition weather0 :: subsystem where
  "weather0 = \<lparr>typeName = ''Game.Weather'', EngineSubsystemID = 0, CanEverTick = True\<rparr>"

text \<open>
  \<^verbatim>\<open>Init\<close>, a first scene, \<^verbatim>\<open>EnterPlayMode\<close>, the game assembly loaded, and a switch
  to \<^verbatim>\<open>b.scene\<close> queued.
\<close>

definition loaded0 :: engine where
  "loaded0 =
     snd (QueueSceneSwitch ''b.scene'' (OnScriptingEngineGameAssemblyLoaded gameAssembly0 playing0))"

subsection \<open>The timing fields in binary32\<close>

text \<open>
  The fields \<^verbatim>\<open>lastFrameTime\<close>, \<^verbatim>\<open>fixedUpdateRate\<close>, \<^verbatim>\<open>fixedUpdateDifference\<close>,
  \<^verbatim>\<open>time\<close>, \<^verbatim>\<open>timeStep\<close> and \<^verbatim>\<open>timeScale\<close> are of type \<^verbatim>\<open>float\<close>. In the record
  \<open>engine\<close> they are real numbers. That is enough to say which calls a frame makes and
  in which order, but not to say how many fixed updates it makes, what it leaves in the
  accumulator or whether its loop ends: over the reals a frame with a positive rate always
  returns, in the machine's arithmetic it may not. This part models the statements of
  \<^verbatim>\<open>Tick\<close> that read or write these fields (lines 71 to 73, 130 and 133 to 138) in the
  arithmetic of the machine: IEEE 754 binary32, every operation rounded once, to nearest,
  ties to even.

  Every finite binary32 number is an integer multiple of \<^verbatim>\<open>2^-149\<close>, the smallest
  positive one. \<open>Finite k\<close> stands for \<^verbatim>\<open>k * 2^-149\<close>, for short \<open>k\<close> units; one second is \<open>Finite (2 ^ 149)\<close>.
  The numbers of the format are those whose magnitude has a binary numeral of at most 24
  digits followed by zeros and is below \<open>2 ^ 277\<close> (which stands for \<^verbatim>\<open>2^128\<close>). The two
  zeros of the format are one value here: they compare equal, and the program only adds,
  subtracts, multiplies and compares. \<open>NaN\<close> stands for every NaN.
\<close>

datatype float32 = Finite int | PosInf | NegInf | NaN

text \<open>The number of binary digits of a positive integer; 0 for the others.\<close>

function bits :: "int \<Rightarrow> nat" where
  "bits k = (if k \<le> 0 then 0 else Suc (bits (k div 2)))"
  by pat_completeness auto
termination
  by (relation "measure nat") auto

declare bits.simps [simp del]

text \<open>
  \<open>x \<ge> 0\<close> rounded to a multiple of \<open>2 ^ sh\<close>: to the nearest one, and of two that are
  equally near to the even one.
\<close>

definition roundEven :: "nat \<Rightarrow> int \<Rightarrow> int" where
  "roundEven sh x =
     (let q = x div 2 ^ sh; r = x mod 2 ^ sh
      in (if 2 * r < 2 ^ sh then q
          else if 2 ^ sh < 2 * r then q + 1
          else if even q then q else q + 1) * 2 ^ sh)"

text \<open>
  The binary32 number that the exact value of \<open>k / 2 ^ s\<close> units rounds to. The
  magnitude keeps its 24 leading binary digits, but no digit below one unit (the
  subnormal numbers); a magnitude that rounds to \<^verbatim>\<open>2^128\<close> or more becomes an infinity.
\<close>

definition roundAt :: "nat \<Rightarrow> int \<Rightarrow> float32" where
  "roundAt s k =
     (let x = \<bar>k\<bar>;
          sh = max s (bits x - 24);
          m = roundEven sh x div 2 ^ s
      in if 2 ^ 277 \<le> m then (if k < 0 then NegInf else PosInf)
         else Finite (if k < 0 then - m else m))"

definition round32 :: "int \<Rightarrow> float32" where
  "round32 k = roundAt 0 k"

fun neg32 :: "float32 \<Rightarrow> float32" where
  "neg32 (Finite a) = Finite (- a)"
| "neg32 PosInf = NegInf"
| "neg32 NegInf = PosInf"
| "neg32 NaN = NaN"

text \<open>\<^verbatim>\<open>x + y\<close> on \<^verbatim>\<open>float\<close>.\<close>

fun add32 :: "float32 \<Rightarrow> float32 \<Rightarrow> float32" where
  "add32 NaN y = NaN"
| "add32 x NaN = NaN"
| "add32 PosInf NegInf = NaN"
| "add32 NegInf PosInf = NaN"
| "add32 PosInf y = PosInf"
| "add32 x PosInf = PosInf"
| "add32 NegInf y = NegInf"
| "add32 x NegInf = NegInf"
| "add32 (Finite a) (Finite b) = round32 (a + b)"

text \<open>\<^verbatim>\<open>x - y\<close> on \<^verbatim>\<open>float\<close>.\<close>

definition sub32 :: "float32 \<Rightarrow> float32 \<Rightarrow> float32" where
  "sub32 x y = add32 x (neg32 y)"

text \<open>An infinity times the finite number \<open>a\<close>.\<close>

definition sgn32 :: "int \<Rightarrow> float32" where
  "sgn32 a = (if a = 0 then NaN else if a < 0 then NegInf else PosInf)"

text \<open>
  \<^verbatim>\<open>x * y\<close> on \<^verbatim>\<open>float\<close>. The exact product of \<open>a\<close> units and \<open>b\<close> units is
  \<open>a * b / 2 ^ 149\<close> units.
\<close>

fun mul32 :: "float32 \<Rightarrow> float32 \<Rightarrow> float32" where
  "mul32 NaN y = NaN"
| "mul32 x NaN = NaN"
| "mul32 (Finite a) (Finite b) = roundAt 149 (a * b)"
| "mul32 (Finite a) PosInf = sgn32 a"
| "mul32 (Finite a) NegInf = sgn32 (- a)"
| "mul32 PosInf (Finite b) = sgn32 b"
| "mul32 NegInf (Finite b) = sgn32 (- b)"
| "mul32 PosInf PosInf = PosInf"
| "mul32 PosInf NegInf = NegInf"
| "mul32 NegInf PosInf = NegInf"
| "mul32 NegInf NegInf = PosInf"

text \<open>\<^verbatim>\<open>x >= y\<close> on \<^verbatim>\<open>float\<close>: false as soon as one side is a NaN.\<close>

fun ge32 :: "float32 \<Rightarrow> float32 \<Rightarrow> bool" where
  "ge32 NaN y = False"
| "ge32 x NaN = False"
| "ge32 PosInf y = True"
| "ge32 x NegInf = True"
| "ge32 NegInf y = False"
| "ge32 x PosInf = False"
| "ge32 (Finite a) (Finite b) = (b \<le> a)"

text \<open>\<^verbatim>\<open>x < 0\<close> on \<^verbatim>\<open>float\<close>.\<close>

fun negative32 :: "float32 \<Rightarrow> bool" where
  "negative32 (Finite a) = (a < 0)"
| "negative32 NegInf = True"
| "negative32 x = False"

text \<open>
  The six fields, and in \<open>fixedUpdates32\<close> the arguments of the calls of
  \<^verbatim>\<open>currentWindow->FixedUpdate\<close> so far, in order.

  Modelled from the spec: the class \<^verbatim>\<open>Timestep\<close> of the field \<^verbatim>\<open>timeStep\<close> is declared in
  a header that is not among the sources. The spec describes the time step as the value
  \<open>now - lastFrameTime\<close>; the field is taken to hold the one \<^verbatim>\<open>float\<close> that line 72
  assigns to it and line 130 reads from it.
\<close>

record timing =
  lastFrameTime32 :: float32
  fixedUpdateRate32 :: float32
  fixedUpdateDifference32 :: float32
  time32 :: float32
  timeStep32 :: float32
  timeScale32 :: float32
  fixedUpdates32 :: "float32 list"

text \<open>
  The static initialisers. \<^verbatim>\<open>1.0f / 90.0f\<close> is the binary32 number
  \<^verbatim>\<open>11930465 * 2^-30\<close>, a little above one ninetieth; \<^verbatim>\<open>1.0f\<close> is \<open>2 ^ 149\<close> units.
\<close>

definition initial32 :: timing where
  "initial32 =
     \<lparr>lastFrameTime32 = Finite 0, fixedUpdateRate32 = Finite (11930465 * 2 ^ 119),
      fixedUpdateDifference32 = Finite 0, time32 = Finite 0, timeStep32 = Finite 0,
      timeScale32 = Finite (2 ^ 149), fixedUpdates32 = []\<rparr>"

text \<open>
  Lines 133 to 138. The source puts no bound on the loop, so the model is a partial
  function: \<open>None\<close> is the loop that never ends.
\<close>

partial_function (option) fixedUpdateLoop32 :: "timing \<Rightarrow> timing option" where
  "fixedUpdateLoop32 s =
     (if ge32 (fixedUpdateDifference32 s) (fixedUpdateRate32 s)
      then fixedUpdateLoop32
             (s\<lparr>fixedUpdates32 :=
                   fixedUpdates32 s @ [mul32 (fixedUpdateRate32 s) (timeScale32 s)],
                 fixedUpdateDifference32 :=
                   sub32 (fixedUpdateDifference32 s) (fixedUpdateRate32 s)\<rparr>)
      else Some s)"

declare fixedUpdateLoop32.simps [code]

text \<open>
  Lines 71 to 73; \<open>now\<close> is \<^verbatim>\<open>static_cast<float>(glfwGetTime())\<close>, the clock reading
  after the cast.
\<close>

definition clock32 :: "float32 \<Rightarrow> timing \<Rightarrow> timing" where
  "clock32 now s =
     s\<lparr>time32 := now, timeStep32 := sub32 now (lastFrameTime32 s), lastFrameTime32 := now\<rparr>"

text \<open>Line 130.\<close>

definition accumulate32 :: "timing \<Rightarrow> timing" where
  "accumulate32 s =
     s\<lparr>fixedUpdateDifference32 := add32 (fixedUpdateDifference32 s) (timeStep32 s)\<rparr>"

text \<open>
  What one call of \<^verbatim>\<open>Tick\<close> does to the timing fields. \<open>sceneInstalled\<close> is the outcome of
  the test \<^verbatim>\<open>currentWindow->GetScene()\<close> of line 120, which guards lines 130 to 138. The
  other statements of \<^verbatim>\<open>Tick\<close> (the queued switch, the subsystem ticks, the variable-rate
  updates, input and audio) assign none of the six fields; their calls and their order are
  those of \<open>Tick\<close> above.
\<close>

definition Tick32 :: "bool \<Rightarrow> float32 \<Rightarrow> timing \<Rightarrow> timing option" where
  "Tick32 sceneInstalled now s =
     (let s1 = clock32 now s
      in if sceneInstalled then fixedUpdateLoop32 (accumulate32 s1) else Some s1)"

text \<open>One iteration of the loop: lines 135 and 137.\<close>

definition drainStep32 :: "timing \<Rightarrow> timing" where
  "drainStep32 s =
     s\<lparr>fixedUpdates32 := fixedUpdates32 s @ [mul32 (fixedUpdateRate32 s) (timeScale32 s)],
       fixedUpdateDifference32 := sub32 (fixedUpdateDifference32 s) (fixedUpdateRate32 s)\<rparr>"

text \<open>
  The accumulator after the first \<open>k\<close> iterations of the loop entered in \<open>s\<close>; \<open>None\<close> when
  the loop makes fewer than \<open>k\<close> iterations. It is defined whether or not the loop ends.
\<close>

fun accumulatorAfter :: "nat \<Rightarrow> timing \<Rightarrow> float32 option" where
  "accumulatorAfter 0 s = Some (fixedUpdateDifference32 s)"
| "accumulatorAfter (Suc k) s =
     (if ge32 (fixedUpdateDifference32 s) (fixedUpdateRate32 s)
      then accumulatorAfter k (drainStep32 s) else None)"

text \<open>The magnitude that a non-negative number of units rounds to.\<close>

definition mag32 :: "int \<Rightarrow> int" where
  "mag32 x = roundEven (bits x - 24) x"


text \<open>
  \<open>drainedBy n s s'\<close>: \<open>s'\<close> is \<open>s\<close> after \<open>n\<close> iterations of the loop, and there the loop
  ends.
\<close>

definition drainedBy :: "nat \<Rightarrow> timing \<Rightarrow> timing \<Rightarrow> bool" where
  "drainedBy n s s' =
     (fixedUpdates32 s' =
        fixedUpdates32 s @ replicate n (mul32 (fixedUpdateRate32 s) (timeScale32 s)) \<and>
      fixedUpdateDifference32 s' =
        ((\<lambda>x. sub32 x (fixedUpdateRate32 s)) ^^ n) (fixedUpdateDifference32 s) \<and>
      accumulatorAfter n s = Some (fixedUpdateDifference32 s') \<and>
      \<not> ge32 (fixedUpdateDifference32 s') (fixedUpdateRate32 s) \<and>
      fixedUpdateRate32 s' = fixedUpdateRate32 s \<and> timeScale32 s' = timeScale32 s \<and>
      lastFrameTime32 s' = lastFrameTime32 s \<and> timeStep32 s' = timeStep32 s \<and>
      time32 s' = time32 s)"

text \<open>
  Clock readings. \<open>frame36\<close> is \<^verbatim>\<open>14913081 * 2^-29\<close>, the binary32 number nearest to a
  thirty-sixth of a second, which is also the one nearest to two and a half initial rates;
  \<open>after36\<close> are the timing fields after a first frame at that reading. \<open>pause32\<close> is
  200000 s and \<open>stall32\<close> is 300000 s.
\<close>

definition frame36 :: float32 where
  "frame36 = Finite (14913081 * 2 ^ 120)"

definition after36 :: timing where
  "after36 =
     \<lparr>lastFrameTime32 = frame36, fixedUpdateRate32 = Finite (11930465 * 2 ^ 119),
      fixedUpdateDifference32 = Finite (5965231 * 2 ^ 119), time32 = frame36,
      timeStep32 = frame36, timeScale32 = Finite (2 ^ 149),
      fixedUpdates32 = [Finite (11930465 * 2 ^ 119), Finite (11930465 * 2 ^ 119)]\<rparr>"



section \<open>Basic facts\<close>

lemma emit_fields [simp]:
  "trace (emit ev s) = trace s @ [ev]"
  "currentWindow (emit ev s) = currentWindow s"
  "queuedScene (emit ev s) = queuedScene s"
  "gameState (emit ev s) = gameState s"
  "lastFrameTime (emit ev s) = lastFrameTime s"
  "fixedUpdateRate (emit ev s) = fixedUpdateRate s"
  "fixedUpdateDifference (emit ev s) = fixedUpdateDifference s"
  "timeStep (emit ev s) = timeStep s"
  "timeScale (emit ev s) = timeScale s"
  "subsystems (emit ev s) = subsystems s"
  by (simp_all add: emit_def)

lemma emits_fields [simp]:
  "trace (emits evs s) = trace s @ evs"
  "currentWindow (emits evs s) = currentWindow s"
  "queuedScene (emits evs s) = queuedScene s"
  "gameState (emits evs s) = gameState s"
  "lastFrameTime (emits evs s) = lastFrameTime s"
  "fixedUpdateRate (emits evs s) = fixedUpdateRate s"
  "fixedUpdateDifference (emits evs s) = fixedUpdateDifference s"
  "timeStep (emits evs s) = timeStep s"
  "timeScale (emits evs s) = timeScale s"
  "subsystems (emits evs s) = subsystems s"
  by (simp_all add: emits_def)

lemma newEvents_append [simp]: "trace s' = trace s @ evs \<Longrightarrow> newEvents s s' = evs"
  by (simp add: newEvents_def)

lemma gameStateWrites_simps [simp]:
  "gameStateWrites [] = []"
  "gameStateWrites (ev # evs) = gameStateWrite ev @ gameStateWrites evs"
  "gameStateWrites (xs @ ys) = gameStateWrites xs @ gameStateWrites ys"
  by (simp_all add: gameStateWrites_def)

lemma followsGraph_append:
  "followsGraph g (xs @ ys) = (followsGraph g xs \<and> followsGraph (last (g # xs)) ys)"
  by (induction xs arbitrary: g) auto

lemma EnterPlayMode_again:
  assumes "gameState s = Playing \<or> gameState s = Loading"
  shows "EnterPlayMode e now s =
           Done (s\<lparr>lastFrameTime := now,
                   trace := trace s @ [Logger_Log WARNING
                     ''Cannot enter play mode if is already in play mode or is loading.'']\<rparr>)"
  using assms by (auto simp: EnterPlayMode_def GetGameState_def emit_def)

lemma EnterPlayMode_no_scene:
  assumes "gameState s = Stopped" and "GetCurrentScene s = None"
  shows "EnterPlayMode e now s =
           Crash NullScene (s\<lparr>lastFrameTime := now, gameState := Loading,
                   trace := trace s @ [Write_gameState Loading, PhysicsManager_ReInit]\<rparr>)"
  using assms
  by (simp add: EnterPlayMode_def GetGameState_def SetGameState_def GetCurrentScene_def
        emit_def Let_def)

lemma EnterPlayMode_success:
  assumes "gameState s = Stopped" and "GetCurrentScene s = Some sc" and "OnInit e sc"
  shows "EnterPlayMode e now s =
           Done (s\<lparr>lastFrameTime := now, gameState := Playing,
                   trace := trace s @ [Write_gameState Loading, PhysicsManager_ReInit,
                     Scene_OnInit sc, Write_gameState Playing]\<rparr>)"
  using assms
  by (simp add: EnterPlayMode_def GetGameState_def SetGameState_def GetCurrentScene_def
        emit_def Let_def)

lemma EnterPlayMode_failure:
  assumes "gameState s = Stopped" and "GetCurrentScene s = Some sc" and "\<not> OnInit e sc"
  shows "EnterPlayMode e now s =
           Done (s\<lparr>lastFrameTime := now, gameState := Loading,
                   trace := trace s @ [Write_gameState Loading, PhysicsManager_ReInit,
                     Scene_OnInit sc,
                     Logger_Log CRITICAL ''Cannot enter play mode. Scene OnInit failed'',
                     Scene_OnExit sc]\<rparr>)"
  using assms
  by (simp add: EnterPlayMode_def GetGameState_def SetGameState_def GetCurrentScene_def
        emit_def Let_def)

lemma ExitPlayMode_Stopped:
  "gameState s = Stopped \<Longrightarrow> ExitPlayMode s = Done s"
  by (simp add: ExitPlayMode_def)

lemma ExitPlayMode_no_scene:
  "gameState s \<noteq> Stopped \<Longrightarrow> GetCurrentScene s = None \<Longrightarrow> ExitPlayMode s = Crash NullScene s"
  by (simp add: ExitPlayMode_def)

lemma ExitPlayMode_leaves:
  assumes "gameState s \<noteq> Stopped" and "GetCurrentScene s = Some sc"
  shows "ExitPlayMode s =
           Done (s\<lparr>gameState := Stopped,
                   trace := trace s @ [Scene_OnExit sc, Input_ShowMouse, Write_gameState Stopped]\<rparr>)"
  using assms by (simp add: ExitPlayMode_def emit_def)

text \<open>One call: the writes it makes follow the graph and end in the state it leaves.\<close>

lemma pathOfI:
  "trace s' = trace s @ evs \<Longrightarrow> followsGraph (gameState s) (gameStateWrites evs) \<Longrightarrow>
   gameState s' = last (gameState s # gameStateWrites evs) \<Longrightarrow> pathOf s s'"
  unfolding pathOf_def by blast

lemma pathOf_refl: "pathOf s s"
  by (rule pathOfI [where evs = "[]"]) simp_all

lemma pathOf_trans:
  assumes "pathOf s s1" and "pathOf s1 s2"
  shows "pathOf s s2"
proof -
  from assms(1) obtain evs where evs: "trace s1 = trace s @ evs"
      "followsGraph (gameState s) (gameStateWrites evs)"
      "gameState s1 = last (gameState s # gameStateWrites evs)"
    unfolding pathOf_def by blast
  from assms(2) obtain evs' where evs': "trace s2 = trace s1 @ evs'"
      "followsGraph (gameState s1) (gameStateWrites evs')"
      "gameState s2 = last (gameState s1 # gameStateWrites evs')"
    unfolding pathOf_def by blast
  show ?thesis
  proof (rule pathOfI [where evs = "evs @ evs'"])
    show "trace s2 = trace s @ evs @ evs'" using evs(1) evs'(1) by simp
    show "followsGraph (gameState s) (gameStateWrites (evs @ evs'))"
      using evs(2,3) evs'(2) by (simp add: followsGraph_append)
    show "gameState s2 = last (gameState s # gameStateWrites (evs @ evs'))"
      using evs(3) evs'(3) by (simp add: last_append)
  qed
qed

lemma EnterPlayMode_path: "pathOf s (final (EnterPlayMode e now s))"
proof (cases "gameState s = Stopped")
  case False
  then have "gameState s = Playing \<or> gameState s = Loading"
    by (cases "gameState s") simp_all
  then show ?thesis
    by (simp add: EnterPlayMode_again pathOf_def)
next
  case True
  show ?thesis
  proof (cases "GetCurrentScene s")
    case None
    show ?thesis
      by (simp add: EnterPlayMode_no_scene [OF True None] pathOf_def True)
  next
    case (Some sc)
    show ?thesis
    proof (cases "OnInit e sc")
      case ok: True
      show ?thesis
        by (simp add: EnterPlayMode_success [OF True Some ok] pathOf_def True)
    next
      case bad: False
      show ?thesis
        by (simp add: EnterPlayMode_failure [OF True Some bad] pathOf_def True)
    qed
  qed
qed

lemma ExitPlayMode_path: "pathOf s (final (ExitPlayMode s))"
proof (cases "gameState s = Stopped")
  case True
  then show ?thesis by (simp add: ExitPlayMode_Stopped pathOf_refl)
next
  case False
  then have g: "gameState s = Playing \<or> gameState s = Loading"
    by (cases "gameState s") simp_all
  show ?thesis
  proof (cases "GetCurrentScene s")
    case None
    then show ?thesis by (simp add: ExitPlayMode_no_scene [OF False] pathOf_refl)
  next
    case (Some sc)
    show ?thesis
      using g by (auto simp: ExitPlayMode_leaves [OF False Some] pathOf_def)
  qed
qed

lemma step_path: "pathOf s (final (step c s))"
  by (cases c) (simp_all add: EnterPlayMode_path ExitPlayMode_path)

lemma run_path: "pathOf s (final (run cs s))"
proof (induction cs arbitrary: s)
  case Nil
  show ?case by (simp add: pathOf_refl)
next
  case (Cons c cs)
  show ?case
  proof (cases "step c s")
    case (Crash err s1)
    then show ?thesis using step_path [of s c] by simp
  next
    case (Done s1)
    then have "pathOf s s1" using step_path [of s c] by simp
    moreover have "pathOf s1 (final (run cs s1))" by (rule Cons.IH)
    ultimately show ?thesis using Done by (simp add: pathOf_trans)
  qed
qed

section \<open>The fixed update loop\<close>

lemma drained_0: "drained 0 s = s"
  by (simp add: drained_def)

lemma fixedUpdateLoop_exit:
  "fixedUpdateDifference s < fixedUpdateRate s \<Longrightarrow> fixedUpdateLoop s = Some s"
  by (subst fixedUpdateLoop.simps) simp

text \<open>With the accumulator between \<open>n\<close> and \<open>n + 1\<close> rates the loop runs \<open>n\<close> times.\<close>

lemma fixedUpdateLoop_iter:
  assumes "0 < fixedUpdateRate s"
    and "real n * fixedUpdateRate s \<le> fixedUpdateDifference s"
    and "fixedUpdateDifference s < real (Suc n) * fixedUpdateRate s"
  shows "fixedUpdateLoop s = Some (drained n s)"
  using assms
proof (induction n arbitrary: s)
  case 0
  then show ?case by (simp add: fixedUpdateLoop_exit drained_0)
next
  case (Suc n)
  let ?s1 = "(emit (Window_FixedUpdate (fixedUpdateRate s * timeScale s)) s)
                \<lparr>fixedUpdateDifference := fixedUpdateDifference s - fixedUpdateRate s\<rparr>"
  from Suc.prems have ge: "fixedUpdateRate s \<le> fixedUpdateDifference s"
    by (simp add: algebra_simps) (smt (verit) mult_nonneg_nonneg of_nat_0_le_iff)
  have r: "fixedUpdateRate ?s1 = fixedUpdateRate s"
    and d: "fixedUpdateDifference ?s1 = fixedUpdateDifference s - fixedUpdateRate s"
    by (simp_all add: emit_def)
  have "fixedUpdateLoop ?s1 = Some (drained n ?s1)"
  proof (rule Suc.IH)
    show "0 < fixedUpdateRate ?s1" using Suc.prems r by simp
    show "real n * fixedUpdateRate ?s1 \<le> fixedUpdateDifference ?s1"
      using Suc.prems by (simp add: r d algebra_simps)
    show "fixedUpdateDifference ?s1 < real (Suc n) * fixedUpdateRate ?s1"
      using Suc.prems by (simp add: r d algebra_simps)
  qed
  moreover have "drained n ?s1 = drained (Suc n) s"
    by (simp add: drained_def emit_def replicate_append_same algebra_simps)
  moreover have "fixedUpdateLoop s = fixedUpdateLoop ?s1"
    using ge by (subst fixedUpdateLoop.simps) simp
  ultimately show ?case by simp
qed

text \<open>With a positive rate the loop ends, after \<open>iterations s\<close> rounds.\<close>

lemma fixedUpdateLoop_result:
  assumes "0 < fixedUpdateRate s"
  shows "fixedUpdateLoop s = Some (drained (iterations s) s)"
proof (cases "fixedUpdateDifference s < 0")
  case True
  then have "fixedUpdateDifference s / fixedUpdateRate s < 0"
    using assms by (simp add: divide_neg_pos)
  then have "iterations s = 0" by (simp add: iterations_def)
  then show ?thesis using True assms by (simp add: fixedUpdateLoop_exit drained_0)
next
  case False
  let ?q = "fixedUpdateDifference s / fixedUpdateRate s"
  from False assms have q0: "0 \<le> ?q" by simp
  then have n: "real (iterations s) = of_int \<lfloor>?q\<rfloor>"
    by (simp add: iterations_def)
  have qr: "?q * fixedUpdateRate s = fixedUpdateDifference s"
    using assms by simp
  have "of_int \<lfloor>?q\<rfloor> * fixedUpdateRate s \<le> ?q * fixedUpdateRate s"
    using assms by (intro mult_right_mono) simp_all
  then have lo: "real (iterations s) * fixedUpdateRate s \<le> fixedUpdateDifference s"
    by (simp only: n qr)
  have "?q < of_int \<lfloor>?q\<rfloor> + 1" by linarith
  then have "?q * fixedUpdateRate s < (of_int \<lfloor>?q\<rfloor> + 1) * fixedUpdateRate s"
    using assms by (intro mult_strict_right_mono)
  then have "fixedUpdateDifference s < (real (iterations s) + 1) * fixedUpdateRate s"
    by (simp only: n qr)
  then have hi: "fixedUpdateDifference s < real (Suc (iterations s)) * fixedUpdateRate s"
    by (simp add: add.commute)
  show ?thesis using assms lo hi by (rule fixedUpdateLoop_iter)
qed

section \<open>The parts of a frame\<close>

lemma emits_Nil [simp]: "emits [] s = s"
  by (simp add: emits_def)

lemma emits_emits: "emits ys (emits xs s) = emits (xs @ ys) s"
  by (simp add: emits_def)

lemma emit_emits: "emit ev s = emits [ev] s"
  by (simp add: emit_def emits_def)

lemma forEachSubsystem_filter:
  assumes "\<And>sub ev. ev \<in> set (f sub) \<Longrightarrow> \<not> P ev"
  shows "filter P (forEachSubsystem f subs) = []"
proof (induction subs)
  case Nil
  show ?case by simp
next
  case (Cons a subs)
  then show ?case using assms by (cases a) (auto simp: filter_empty_conv)
qed

lemma OnWindowSetScene_events:
  "OnWindowSetScene oldScene newScene s = emits (handlerEvents (subsystems s) oldScene newScene) s"
  by (cases newScene) (simp_all add: OnWindowSetScene_def handlerEvents_def emits_def emit_def)

lemma fold_runHandler:
  "fold (\<lambda>h. runHandler h oldScene newScene) hs s =
     emits (concat (map (\<lambda>h. handlerEvents (subsystems s) oldScene newScene) hs)) s"
proof (induction hs arbitrary: s)
  case Nil
  show ?case by simp
next
  case (Cons h hs)
  show ?case
    by (cases h) (simp add: Cons.IH OnWindowSetScene_events emits_emits)
qed

lemma handlerEvents_broadcast: "ev \<in> set (handlerEvents subs oldScene newScene) \<Longrightarrow> isSceneBroadcast ev"
proof -
  have "\<forall>ev \<in> set (forEachSubsystem (\<lambda>sub. [Subsystem_OnScenePreDestroy sub oldScene]) subs).
          isSceneBroadcast ev"
    by (induction "\<lambda>sub. [Subsystem_OnScenePreDestroy sub oldScene]" subs
          rule: forEachSubsystem.induct) auto
  then show "ev \<in> set (handlerEvents subs oldScene newScene) \<Longrightarrow> isSceneBroadcast ev"
    by (cases newScene) (auto simp: handlerEvents_def)
qed

lemma broadcast_other:
  assumes "isSceneBroadcast ev"
  shows "\<not> isSwitchEvent ev" "\<not> isLog ev" "\<not> isFixedUpdate ev" "\<not> isOnInit ev" "\<not> isOnExit ev"
  using assms by (cases ev; simp)+

lemma delegateEvents_broadcast: "ev \<in> set (delegateEvents w subs newScene) \<Longrightarrow> isSceneBroadcast ev"
  by (auto simp: delegateEvents_def handlerEvents_broadcast split: if_splits)

lemma delegateEvents_filter [simp]:
  "filter isSwitchEvent (delegateEvents w subs newScene) = []"
  "filter isLog (delegateEvents w subs newScene) = []"
  "filter isFixedUpdate (delegateEvents w subs newScene) = []"
  "filter isOnInit (delegateEvents w subs newScene) = []"
  "filter isOnExit (delegateEvents w subs newScene) = []"
  by (auto simp: filter_empty_conv dest: delegateEvents_broadcast broadcast_other)

lemma Window_SetScene_impl_result:
  "Window_SetScene_impl w newScene s =
     s\<lparr>currentWindow := Some (w\<lparr>windowScene := newScene\<rparr>),
       trace := trace s @ delegateEvents w (subsystems s) newScene @ [Window_SetScene newScene]\<rparr>"
  by (simp add: Window_SetScene_impl_def fold_runHandler delegateEvents_def emits_def emit_def)

lemma tickEvents_filter [simp]:
  "filter isSwitchEvent (tickEvents dt s) = []"
  "filter isLog (tickEvents dt s) = []"
  "filter isFixedUpdate (tickEvents dt s) = []"
  "filter isOnInit (tickEvents dt s) = []"
  "filter isOnExit (tickEvents dt s) = []"
  by (auto simp: tickEvents_def intro!: forEachSubsystem_filter split: if_splits)

lemma tickSubsystems_result: "tickSubsystems dt s = emits (tickEvents dt s) s"
  by (simp add: tickSubsystems_def tickEvents_def IsPlayMode_def)

lemma switchQueuedScene_idle:
  assumes "\<not> (gameState s = Playing \<and> queuedScene s \<noteq> [] \<and> FileExists e (queuedScene s))"
  shows "switchQueuedScene e s = Done s"
  using assms by (auto simp: switchQueuedScene_def IsPlayMode_def Let_def)

lemma switchQueuedScene_switch:
  assumes "gameState s = Playing" and "queuedScene s \<noteq> []" and "FileExists e (queuedScene s)"
    and "jsonParses e (ReadFile e (queuedScene s))"
    and "currentWindow s = Some w" and "windowScene w = Some old"
  shows "switchQueuedScene e s = Done (switched e w old s)"
  using assms
  by (simp add: switchQueuedScene_def IsPlayMode_def Let_def Scene_New_def GetCurrentScene_def
        SetCurrentScene_def Window_SetScene_impl_result switched_def emit_def)

text \<open>Whatever the switch does, it returns only in these two ways.\<close>

lemma switchQueuedScene_Done:
  assumes "switchQueuedScene e s = Done s'"
  shows "s' = s \<or> (\<exists>w old. currentWindow s = Some w \<and> windowScene w = Some old \<and>
                      s' = switched e w old s)"
proof (cases "gameState s = Playing \<and> queuedScene s \<noteq> [] \<and> FileExists e (queuedScene s)")
  case False
  then show ?thesis using assms by (simp add: switchQueuedScene_idle)
next
  case True
  show ?thesis
  proof (cases "jsonParses e (ReadFile e (queuedScene s))")
    case False
    then show ?thesis using assms True
      by (simp add: switchQueuedScene_def IsPlayMode_def Let_def)
  next
    case parses: True
    show ?thesis
    proof (cases "currentWindow s")
      case None
      then show ?thesis using assms True parses
        by (simp add: switchQueuedScene_def IsPlayMode_def Let_def GetCurrentScene_def)
    next
      case (Some w)
      show ?thesis
      proof (cases "windowScene w")
        case None
        then show ?thesis using assms True parses Some
          by (simp add: switchQueuedScene_def IsPlayMode_def Let_def GetCurrentScene_def)
      next
        case (Some old)
        then show ?thesis
          using assms True parses \<open>currentWindow s = Some w\<close>
          by (simp add: switchQueuedScene_switch)
      qed
    qed
  qed
qed

lemma switched_fields [simp]:
  "gameState (switched e w old s) = gameState s"
  "fixedUpdateRate (switched e w old s) = fixedUpdateRate s"
  "fixedUpdateDifference (switched e w old s) = fixedUpdateDifference s"
  "timeStep (switched e w old s) = timeStep s"
  "timeScale (switched e w old s) = timeScale s"
  "subsystems (switched e w old s) = subsystems s"
  "lastFrameTime (switched e w old s) = lastFrameTime s"
  "queuedScene (switched e w old s) = []"
  "currentWindow (switched e w old s) =
     Some (w\<lparr>windowScene := Some \<lparr>Path = queuedScene s, document = ReadFile e (queuedScene s)\<rparr>\<rparr>)"
  by (simp_all add: switched_def Let_def)

lemma switched_trace:
  "trace (switched e w old s) =
     trace s @ [Scene_OnExit old] @
       delegateEvents w (subsystems s)
         (Some \<lparr>Path = queuedScene s, document = ReadFile e (queuedScene s)\<rparr>) @
       [Window_SetScene (Some \<lparr>Path = queuedScene s, document = ReadFile e (queuedScene s)\<rparr>),
        PhysicsManager_ReInit,
        Scene_OnInit \<lparr>Path = queuedScene s, document = ReadFile e (queuedScene s)\<rparr>,
        Write_queuedScene []]"
  by (simp add: switched_def Let_def)

lemma clocked_fields [simp]:
  "gameState (clocked now s) = gameState s"
  "queuedScene (clocked now s) = queuedScene s"
  "currentWindow (clocked now s) = currentWindow s"
  "fixedUpdateRate (clocked now s) = fixedUpdateRate s"
  "fixedUpdateDifference (clocked now s) = fixedUpdateDifference s"
  "timeScale (clocked now s) = timeScale s"
  "subsystems (clocked now s) = subsystems s"
  "timeStep (clocked now s) = now - lastFrameTime s"
  "lastFrameTime (clocked now s) = now"
  "trace (clocked now s) = trace s @ [JobSystem_Update]"
  by (simp_all add: clocked_def)

text \<open>The scene update in closed form.\<close>

lemma updateScene_result:
  assumes "0 < fixedUpdateRate s" and "currentWindow s = Some w" and "windowScene w = Some sc"
  shows "updateScene dt s = Some (Done (updated dt sc s))"
proof -
  let ?s2 = "if \<not> IsPlayMode (emit (Window_Update dt) s)
             then emit (Scene_EditorUpdate sc dt) (emit (Window_Update dt) s)
             else emit (Window_Update dt) s"
  let ?s3 = "?s2\<lparr>fixedUpdateDifference := fixedUpdateDifference ?s2 + timeStep ?s2\<rparr>"
  have "0 < fixedUpdateRate ?s3" using assms(1) by simp
  then have loop: "fixedUpdateLoop ?s3 = Some (drained (iterations ?s3) ?s3)"
    by (rule fixedUpdateLoop_result)
  have it: "iterations ?s3 = nat \<lfloor>(fixedUpdateDifference s + timeStep s) / fixedUpdateRate s\<rfloor>"
    by (simp add: iterations_def)
  have "emit AudioManager_AudioUpdate (emit Input_Update (drained (iterations ?s3) ?s3)) =
          updated dt sc s"
    unfolding it
    by (simp add: updated_def drained_def emit_def IsPlayMode_def Let_def)
  then show ?thesis
    using assms(2,3) loop by (simp add: updateScene_def Let_def)
qed


lemma updateScene_no_window:
  assumes "currentWindow s = None"
  shows "updateScene dt s = Some (Crash NullWindow s)"
  using assms by (simp add: updateScene_def)

lemma Tick_unfold:
  "Tick e now s =
     (case switchQueuedScene e (clocked now s) of
        Crash err s3 \<Rightarrow> Some (Crash err s3)
      | Done s3 \<Rightarrow>
          updateScene (timeStep s3 * timeScale s3)
            (emits (tickEvents (timeStep s3 * timeScale s3) s3) s3))"
proof -
  have c: "(emit JobSystem_Update s)\<lparr>time := now,
             timeStep := now - lastFrameTime (emit JobSystem_Update s),
             lastFrameTime := now\<rparr> = clocked now s"
    by (simp add: clocked_def emit_def)
  show ?thesis
    unfolding Tick_def Let_def c
    by (cases "switchQueuedScene e (clocked now s)") (simp_all add: tickSubsystems_result)
qed

lemma updated_fields [simp]:
  "gameState (updated dt sc s) = gameState s"
  "queuedScene (updated dt sc s) = queuedScene s"
  "currentWindow (updated dt sc s) = currentWindow s"
  "fixedUpdateRate (updated dt sc s) = fixedUpdateRate s"
  "timeScale (updated dt sc s) = timeScale s"
  "subsystems (updated dt sc s) = subsystems s"
  "timeStep (updated dt sc s) = timeStep s"
  "lastFrameTime (updated dt sc s) = lastFrameTime s"
  by (simp_all add: updated_def Let_def)

lemma updated_trace:
  "trace (updated dt sc s) =
     trace s @ [Window_Update dt] @
       (if gameState s \<noteq> Playing then [Scene_EditorUpdate sc dt] else []) @
       replicate (nat \<lfloor>(fixedUpdateDifference s + timeStep s) / fixedUpdateRate s\<rfloor>)
         (Window_FixedUpdate (fixedUpdateRate s * timeScale s)) @
       [Input_Update, AudioManager_AudioUpdate]"
  by (simp add: updated_def Let_def)

lemma updated_accumulator:
  "fixedUpdateDifference (updated dt sc s) =
     fixedUpdateDifference s + timeStep s -
       real (nat \<lfloor>(fixedUpdateDifference s + timeStep s) / fixedUpdateRate s\<rfloor>) * fixedUpdateRate s"
  by (simp add: updated_def Let_def)

text \<open>A frame in which the queued switch finds its file.\<close>

lemma Tick_switch:
  assumes "gameState s = Playing" and "queuedScene s \<noteq> []" and "FileExists e (queuedScene s)"
    and "jsonParses e (ReadFile e (queuedScene s))"
    and "currentWindow s = Some w" and "windowScene w = Some old"
    and "0 < fixedUpdateRate s"
  shows "Tick e now s =
           Some (Done (updated ((now - lastFrameTime s) * timeScale s)
             \<lparr>Path = queuedScene s, document = ReadFile e (queuedScene s)\<rparr>
             (emits (tickEvents ((now - lastFrameTime s) * timeScale s) s)
                (switched e w old (clocked now s)))))"
proof -
  let ?new = "\<lparr>Path = queuedScene s, document = ReadFile e (queuedScene s)\<rparr>"
  let ?s3 = "switched e w old (clocked now s)"
  let ?dt = "(now - lastFrameTime s) * timeScale s"
  have sw: "switchQueuedScene e (clocked now s) = Done ?s3"
    using assms(1-6) by (intro switchQueuedScene_switch) simp_all
  have te: "tickEvents ?dt ?s3 = tickEvents ?dt s"
    by (simp add: tickEvents_def)
  have "updateScene ?dt (emits (tickEvents ?dt s) ?s3) =
          Some (Done (updated ?dt ?new (emits (tickEvents ?dt s) ?s3)))"
    using assms(7) by (intro updateScene_result [where w = "w\<lparr>windowScene := Some ?new\<rparr>"]) simp_all
  then show ?thesis
    by (simp add: Tick_unfold sw te)
qed







text \<open>The handler itself, when it is called, tells every non-null subsystem.\<close>

lemma OnWindowSetScene_tells_all:
  "newEvents s (OnWindowSetScene oldScene (Some n) s) =
     forEachSubsystem (\<lambda>sub. [Subsystem_OnScenePreDestroy sub oldScene]) (subsystems s) @
     [Scene_OnPreInitialize_AddStatic n, Scene_OnPostInitialize_AddStatic n]"
  by (simp add: OnWindowSetScene_events handlerEvents_def)

text \<open>
  With the handler on the window's delegate, an installation is announced before the swap.
\<close>

lemma registered_handler_runs_before_swap:
  assumes "currentWindow s = Some w" and "windowSetSceneDelegate w = [Engine_OnWindowSetScene]"
    and "subsystems s = [Some sub]"
  shows "newEvents s (final (SetCurrentScene (Some n) s)) =
           [Subsystem_OnScenePreDestroy sub (windowScene w),
            Scene_OnPreInitialize_AddStatic n, Scene_OnPostInitialize_AddStatic n,
            Window_SetScene (Some n)]"
  using assms
  by (simp add: SetCurrentScene_def Window_SetScene_impl_result delegateEvents_def
        handlerEvents_def)

section \<open>The example inputs, evaluated\<close>

lemma ready_simps:
  "gameState ready = Stopped"
  "GetCurrentScene ready = Some sceneA"
  "currentWindow ready = Some (window0\<lparr>windowScene := Some sceneA\<rparr>)"
  "queuedScene ready = []"
  "fixedUpdateRate ready = 1 / 90"
  by (simp_all add: ready_def SetCurrentScene_def Init_def InitializeCoreSubsystems_def
        initial_def Window_SetScene_impl_def window0_def GetCurrentScene_def Let_def)

lemma playing0_eq:
  "playing0 = ready\<lparr>lastFrameTime := 1, gameState := Playing,
                   trace := trace ready @ [Write_gameState Loading, PhysicsManager_ReInit,
                     Scene_OnInit sceneA, Write_gameState Playing]\<rparr>"
  unfolding playing0_def
  by (subst EnterPlayMode_success [where sc = sceneA])
     (simp_all add: ready_simps env0_def)

lemma run_example:
  "run [Call_EnterPlayMode envBad 1, Call_EnterPlayMode env0 2, Call_ExitPlayMode,
       Call_EnterPlayMode env0 3] ready
   = Done (ready\<lparr>lastFrameTime := 3, gameState := Playing,
      trace := trace ready @ [Write_gameState Loading, PhysicsManager_ReInit,
                     Scene_OnInit sceneA,
                     Logger_Log CRITICAL ''Cannot enter play mode. Scene OnInit failed'',
                     Scene_OnExit sceneA,
                     Logger_Log WARNING
                     ''Cannot enter play mode if is already in play mode or is loading.'',
                     Scene_OnExit sceneA, Input_ShowMouse, Write_gameState Stopped,
                     Write_gameState Loading, PhysicsManager_ReInit,
                     Scene_OnInit sceneA, Write_gameState Playing]\<rparr>)"
  by (simp add: EnterPlayMode_def ExitPlayMode_def GetGameState_def SetGameState_def
      GetCurrentScene_def Let_def ready_simps env0_def envBad_def emit_def)

lemma ready_clock:
  "fixedUpdateDifference ready = 0"
  "lastFrameTime ready = 0"
  "timeScale ready = 1"
  "subsystems ready = []"
  "filter isSceneBroadcast (trace ready) = []"
  by (simp_all add: ready_def SetCurrentScene_def Init_def InitializeCoreSubsystems_def
        initial_def Window_SetScene_impl_def window0_def Let_def)

lemma playing0_simps:
  "gameState playing0 = Playing"
  "currentWindow playing0 = Some (window0\<lparr>windowScene := Some sceneA\<rparr>)"
  "queuedScene playing0 = []"
  "fixedUpdateRate playing0 = 1 / 90"
  "fixedUpdateDifference playing0 = 0"
  "lastFrameTime playing0 = 1"
  "timeScale playing0 = 1"
  "subsystems playing0 = []"
  "filter isSceneBroadcast (trace playing0) = []"
  by (simp_all add: playing0_eq ready_simps ready_clock)



lemma loaded0_simps:
  "gameState loaded0 = Playing"
  "currentWindow loaded0 = Some (window0\<lparr>windowScene := Some sceneA\<rparr>)"
  "queuedScene loaded0 = ''b.scene''"
  "fixedUpdateRate loaded0 = 1 / 90"
  "fixedUpdateDifference loaded0 = 0"
  "lastFrameTime loaded0 = 1"
  "timeScale loaded0 = 1"
  "subsystems loaded0 = [Some weather0]"
  "filter isSceneBroadcast (trace loaded0) = []"
  by (simp_all add: loaded0_def QueueSceneSwitch_def OnScriptingEngineGameAssemblyLoaded_def
        IsPlayMode_def GetGameState_def gameAssembly0_def weather0_def Let_def playing0_simps)

section \<open>Binary32: the length of a numeral and rounding\<close>

lemma bits_nonpos: "k \<le> 0 \<Longrightarrow> bits k = 0"
  by (subst bits.simps) simp

lemma bits_pos: "0 < k \<Longrightarrow> bits k = Suc (bits (k div 2))"
  by (subst bits.simps) simp

lemma bits_upper: "k < 2 ^ bits k"
proof (induction k rule: bits.induct)
  case (1 k)
  show ?case
  proof (cases "k \<le> 0")
    case True
    then show ?thesis by (simp add: bits_nonpos)
  next
    case False
    then have "k div 2 < 2 ^ bits (k div 2)" using "1" by simp
    then have "k < 2 * 2 ^ bits (k div 2)" by linarith
    then show ?thesis using False by (simp add: bits_pos)
  qed
qed

lemma bits_lower: "0 < k \<Longrightarrow> 2 ^ (bits k - 1) \<le> k"
proof (induction k rule: bits.induct)
  case (1 k)
  show ?case
  proof (cases "k div 2 \<le> 0")
    case True
    then have "bits k = 1" using "1.prems" by (simp add: bits_pos bits_nonpos)
    then show ?thesis using "1.prems" by simp
  next
    case False
    then have ih: "2 ^ (bits (k div 2) - 1) \<le> k div 2" using "1" by simp
    have "0 < bits (k div 2)" using False by (simp add: bits_pos)
    then have "(2::int) ^ bits (k div 2) = 2 * 2 ^ (bits (k div 2) - 1)"
      by (cases "bits (k div 2)") simp_all
    then have "(2::int) ^ bits (k div 2) \<le> k" using ih by linarith
    then show ?thesis using "1.prems" by (simp add: bits_pos)
  qed
qed

lemma bits_leI: "k < 2 ^ n \<Longrightarrow> bits k \<le> n"
proof (rule ccontr)
  assume k: "k < 2 ^ n" and "\<not> bits k \<le> n"
  then have n: "n \<le> bits k - 1" by simp
  then have "0 < bits k" using \<open>\<not> bits k \<le> n\<close> by simp
  then have "0 < k" by (metis bits_nonpos less_numeral_extra(3) not_le)
  then have "2 ^ (bits k - 1) \<le> k" by (rule bits_lower)
  moreover have "(2::int) ^ n \<le> 2 ^ (bits k - 1)" using n by (simp add: power_increasing)
  ultimately show False using k by linarith
qed


lemma bits_eqI: "2 ^ n \<le> k \<Longrightarrow> k < 2 ^ Suc n \<Longrightarrow> bits k = Suc n"
proof -
  assume lo: "2 ^ n \<le> k" and hi: "k < 2 ^ Suc n"
  have "bits k \<le> Suc n" using hi by (rule bits_leI)
  moreover have "\<not> bits k \<le> n"
  proof
    assume "bits k \<le> n"
    then have "(2::int) ^ bits k \<le> 2 ^ n" by (simp add: power_increasing)
    then show False using bits_upper [of k] lo by linarith
  qed
  ultimately show ?thesis by simp
qed

lemma roundEven_near:
  assumes "0 \<le> x"
  shows "2 * roundEven sh x \<le> 2 * x + 2 ^ sh" and "2 * x \<le> 2 * roundEven sh x + 2 ^ sh"
    and "0 \<le> roundEven sh x"
proof -
  define p :: int where "p = 2 ^ sh"
  define q where "q = x div p"
  define r where "r = x mod p"
  have p: "0 < p" by (simp add: p_def)
  have x: "x = q * p + r" unfolding q_def r_def by (rule div_mult_mod_eq [symmetric])
  have r: "0 \<le> r" "r < p" using p by (simp_all add: r_def)
  have q: "0 \<le> q" using assms p by (simp add: q_def pos_imp_zdiv_nonneg_iff)
  have qp: "0 \<le> q * p" using q p by simp
  have up: "(q + 1) * p = q * p + p" by (simp add: algebra_simps)
  have e: "roundEven sh x =
      (if 2 * r < p then q else if p < 2 * r then q + 1 else if even q then q else q + 1) * p"
    by (simp add: roundEven_def Let_def p_def q_def r_def)
  have "2 * roundEven sh x \<le> 2 * x + p \<and> 2 * x \<le> 2 * roundEven sh x + p \<and>
        0 \<le> roundEven sh x"
  proof (cases "2 * r < p")
    case True
    then have "roundEven sh x = q * p" by (simp add: e)
    then show ?thesis using x r qp True by linarith
  next
    case False
    show ?thesis
    proof (cases "p < 2 * r")
      case True
      then have "roundEven sh x = q * p + p" using False by (simp add: e up)
      then show ?thesis using x r qp p True by linarith
    next
      case eq: False
      have "roundEven sh x = (if even q then q else q + 1) * p"
        unfolding e using False eq by (simp only: if_False)
      then have "roundEven sh x = q * p \<or> roundEven sh x = q * p + p"
        by (cases "even q") (simp_all only: if_True if_False up, simp_all)
      then show ?thesis using x r qp p False eq by linarith
    qed
  qed
  then show "2 * roundEven sh x \<le> 2 * x + 2 ^ sh" "2 * x \<le> 2 * roundEven sh x + 2 ^ sh"
    "0 \<le> roundEven sh x"
    by (simp_all add: p_def)
qed

lemma roundEven_0: "roundEven 0 x = x"
  by (simp add: roundEven_def)

lemma round32_nonneg_eq:
  "0 \<le> x \<Longrightarrow> round32 x = (if 2 ^ 277 \<le> mag32 x then PosInf else Finite (mag32 x))"
  by (simp add: round32_def roundAt_def mag32_def Let_def)

lemma mag32_nonneg: "0 \<le> x \<Longrightarrow> 0 \<le> mag32 x"
  unfolding mag32_def by (rule roundEven_near)


text \<open>The relative error of rounding is at most \<open>2^-24\<close>.\<close>

lemma mag32_relative:
  assumes "0 \<le> x"
  shows "mag32 x * 16777216 \<le> x * 16777217" and "x * 16777215 \<le> mag32 x * 16777216"
proof -
  have "mag32 x * 16777216 \<le> x * 16777217 \<and> x * 16777215 \<le> mag32 x * 16777216"
  proof (cases "bits x \<le> 24")
    case True
    then have "mag32 x = x" by (simp add: mag32_def roundEven_0)
    then show ?thesis using assms by simp
  next
    case False
    define sh where "sh = bits x - 24"
    have b: "bits x - 1 = sh + 23" using False by (simp add: sh_def)
    have "0 < x" using False assms by (cases "x = 0") (simp_all add: bits_nonpos)
    then have "2 ^ (bits x - 1) \<le> x" by (rule bits_lower)
    moreover have "(2::int) ^ (bits x - 1) = 2 ^ sh * 2 ^ 23" by (simp only: b power_add)
    ultimately have lo: "2 ^ sh * 8388608 \<le> x" by simp
    have "2 * mag32 x \<le> 2 * x + 2 ^ sh" "2 * x \<le> 2 * mag32 x + 2 ^ sh"
      unfolding mag32_def sh_def using assms by (rule roundEven_near)+
    then show ?thesis using lo by linarith
  qed
  then show "mag32 x * 16777216 \<le> x * 16777217" "x * 16777215 \<le> mag32 x * 16777216"
    by simp_all
qed

section \<open>Binary32: signs, bounds and the loop\<close>

lemma sub32_Finite: "sub32 (Finite a) (Finite b) = round32 (a - b)"
  by (simp add: sub32_def)

lemma round32_not_negative: "0 \<le> k \<Longrightarrow> \<not> negative32 (round32 k)"
  using mag32_nonneg [of k] by (simp add: round32_nonneg_eq)

lemma add32_not_negative:
  "\<not> negative32 x \<Longrightarrow> \<not> negative32 y \<Longrightarrow> \<not> negative32 (add32 x y)"
  by (cases x; cases y) (simp_all add: round32_not_negative)

lemma sub32_ge_not_negative: "ge32 x y \<Longrightarrow> \<not> negative32 (sub32 x y)"
  by (cases x; cases y) (simp_all add: sub32_def round32_not_negative)

lemma round32_Finite_bound:
  assumes "round32 k = Finite a"
  shows "\<bar>a\<bar> < 2 ^ 277"
proof -
  define m where "m = roundEven (bits \<bar>k\<bar> - 24) \<bar>k\<bar>"
  have m0: "0 \<le> m" unfolding m_def by (rule roundEven_near) simp
  from assms have "\<not> 2 ^ 277 \<le> m" and "a = (if k < 0 then - m else m)"
    by (simp_all add: round32_def roundAt_def Let_def m_def split: if_splits)
  then show ?thesis using m0 by (simp split: if_splits)
qed

lemma add32_Finite_bound: "add32 x y = Finite a \<Longrightarrow> \<bar>a\<bar> < 2 ^ 277"
  by (cases x; cases y) (auto dest: round32_Finite_bound)

lemma fixedUpdateLoop32_exit:
  "\<not> ge32 (fixedUpdateDifference32 s) (fixedUpdateRate32 s) \<Longrightarrow> fixedUpdateLoop32 s = Some s"
  by (subst fixedUpdateLoop32.simps) simp

lemma fixedUpdateLoop32_step:
  "ge32 (fixedUpdateDifference32 s) (fixedUpdateRate32 s) \<Longrightarrow>
   fixedUpdateLoop32 s = fixedUpdateLoop32 (drainStep32 s)"
  by (subst fixedUpdateLoop32.simps) (simp add: drainStep32_def)

lemma drainStep32_fields [simp]:
  "fixedUpdateRate32 (drainStep32 s) = fixedUpdateRate32 s"
  "timeScale32 (drainStep32 s) = timeScale32 s"
  "lastFrameTime32 (drainStep32 s) = lastFrameTime32 s"
  "timeStep32 (drainStep32 s) = timeStep32 s"
  "time32 (drainStep32 s) = time32 s"
  "fixedUpdateDifference32 (drainStep32 s) =
     sub32 (fixedUpdateDifference32 s) (fixedUpdateRate32 s)"
  "fixedUpdates32 (drainStep32 s) =
     fixedUpdates32 s @ [mul32 (fixedUpdateRate32 s) (timeScale32 s)]"
  by (simp_all add: drainStep32_def)

lemma drainedBy_0:
  "\<not> ge32 (fixedUpdateDifference32 s) (fixedUpdateRate32 s) \<Longrightarrow> drainedBy 0 s s"
  by (simp add: drainedBy_def)

lemma drainedBy_Suc:
  assumes "ge32 (fixedUpdateDifference32 s) (fixedUpdateRate32 s)"
    and "drainedBy n (drainStep32 s) s'"
  shows "drainedBy (Suc n) s s'"
proof -
  let ?f = "\<lambda>x. sub32 x (fixedUpdateRate32 s)"
  let ?m = "mul32 (fixedUpdateRate32 s) (timeScale32 s)"
  from assms(2) have u: "fixedUpdates32 s' = (fixedUpdates32 s @ [?m]) @ replicate n ?m"
    and d: "fixedUpdateDifference32 s' = (?f ^^ n) (?f (fixedUpdateDifference32 s))"
    and acc: "accumulatorAfter n (drainStep32 s) = Some (fixedUpdateDifference32 s')"
    and rest: "\<not> ge32 (fixedUpdateDifference32 s') (fixedUpdateRate32 s)"
      "fixedUpdateRate32 s' = fixedUpdateRate32 s" "timeScale32 s' = timeScale32 s"
      "lastFrameTime32 s' = lastFrameTime32 s" "timeStep32 s' = timeStep32 s"
      "time32 s' = time32 s"
    unfolding drainedBy_def drainStep32_fields by blast+
  have u': "fixedUpdates32 s' = fixedUpdates32 s @ replicate (Suc n) ?m"
    using u by simp
  have d': "fixedUpdateDifference32 s' = (?f ^^ Suc n) (fixedUpdateDifference32 s)"
    using d by (simp only: funpow_Suc_right o_apply)
  have acc': "accumulatorAfter (Suc n) s = Some (fixedUpdateDifference32 s')"
    using assms(1) acc by simp
  show ?thesis
    unfolding drainedBy_def using u' d' acc' rest by blast
qed

lemma fixedUpdateLoop32_Some:
  "fixedUpdateLoop32 s = Some s' \<Longrightarrow> \<exists>n. drainedBy n s s'"
proof (induction rule: fixedUpdateLoop32.raw_induct [rotated 1, consumes 1])
  case (1 loop s s')
  show ?case
  proof (cases "ge32 (fixedUpdateDifference32 s) (fixedUpdateRate32 s)")
    case False
    then have "s' = s" using "1.hyps" by simp
    then show ?thesis using False drainedBy_0 by blast
  next
    case True
    then have "loop (drainStep32 s) = Some s'"
      using "1.hyps" by (simp add: drainStep32_def)
    then obtain n where "drainedBy n (drainStep32 s) s'" using "1.IH" by blast
    with True have "drainedBy (Suc n) s s'" by (rule drainedBy_Suc)
    then show ?thesis by blast
  qed
qed

lemma accumulatorAfter_not_negative:
  "\<not> negative32 (fixedUpdateDifference32 s) \<Longrightarrow> accumulatorAfter k s = Some a \<Longrightarrow>
   \<not> negative32 a"
proof (induction k arbitrary: s)
  case 0
  then show ?case by simp
next
  case (Suc k)
  from Suc.prems(2) have ge: "ge32 (fixedUpdateDifference32 s) (fixedUpdateRate32 s)"
    and a: "accumulatorAfter k (drainStep32 s) = Some a"
    by (simp_all split: if_splits)
  have "\<not> negative32 (fixedUpdateDifference32 (drainStep32 s))"
    using ge by (simp add: sub32_ge_not_negative)
  then show ?case using a by (rule Suc.IH)
qed



text \<open>An accumulator within a quarter of a rate of two and a half rates: two rounds.\<close>

lemma fixedUpdateLoop32_twice:
  assumes "fixedUpdateRate32 s = Finite r" and "0 < r"
    and "fixedUpdateDifference32 s = Finite a" and "a < 2 ^ 277"
    and "9 * r \<le> 4 * a" and "4 * a \<le> 11 * r"
  shows "\<exists>s' a'. fixedUpdateLoop32 s = Some s' \<and> drainedBy 2 s s' \<and>
           fixedUpdateDifference32 s' = Finite a' \<and> 0 \<le> a' \<and> a' < r"
proof -
  define m1 where "m1 = mag32 (a - r)"
  define m2 where "m2 = mag32 (m1 - r)"
  let ?s1 = "drainStep32 s"
  let ?s2 = "drainStep32 ?s1"
  have x1: "0 \<le> a - r" using assms(2,5) by (simp add: algebra_simps)
  have r1: "m1 * 16777216 \<le> (a - r) * 16777217" "(a - r) * 16777215 \<le> m1 * 16777216"
    unfolding m1_def using x1 by (rule mag32_relative)+
  have lo1: "r \<le> m1" using r1 assms(2,5) by (simp add: algebra_simps)
  have hi1: "m1 < 2 * r" using r1 assms(2,6) by (simp add: algebra_simps)
  have "m1 < a" using hi1 assms(2,5) by (simp add: algebra_simps)
  then have "m1 < 2 ^ 277" using assms(4) by (rule less_trans)
  then have fin1: "\<not> 2 ^ 277 \<le> m1" by (simp only: not_le)
  have x2: "0 \<le> m1 - r" using lo1 by simp
  have r2: "m2 * 16777216 \<le> (m1 - r) * 16777217"
    unfolding m2_def using x2 by (rule mag32_relative)
  have m20: "0 \<le> m2" unfolding m2_def using x2 by (rule mag32_nonneg)
  have hi2: "m2 < r" using r2 r1 assms(2,6) by (simp add: algebra_simps)
  have "m2 < m1" using hi2 lo1 by (rule less_le_trans)
  then have "m2 < 2 ^ 277" using \<open>m1 < 2 ^ 277\<close> by (rule less_trans)
  then have fin2: "\<not> 2 ^ 277 \<le> m2" by (simp only: not_le)
  have ge0: "ge32 (fixedUpdateDifference32 s) (fixedUpdateRate32 s)"
    using assms(1,2,3,5) by simp
  have d1: "fixedUpdateDifference32 ?s1 = Finite m1"
    using assms(1,3) x1 fin1 by (simp add: sub32_Finite round32_nonneg_eq m1_def)
  have rate1: "fixedUpdateRate32 ?s1 = Finite r" using assms(1) by simp
  have ge1: "ge32 (fixedUpdateDifference32 ?s1) (fixedUpdateRate32 ?s1)"
    using lo1 by (simp only: d1 rate1 ge32.simps)
  have "fixedUpdateDifference32 ?s2 = sub32 (fixedUpdateDifference32 ?s1) (fixedUpdateRate32 ?s1)"
    by (simp only: drainStep32_fields)
  also have "\<dots> = round32 (m1 - r)" by (simp only: d1 rate1 sub32_Finite)
  also have "\<dots> = Finite m2" using x2 fin2 by (simp add: round32_nonneg_eq m2_def)
  finally have d2: "fixedUpdateDifference32 ?s2 = Finite m2" .
  have rate2: "fixedUpdateRate32 ?s2 = Finite r" using assms(1) by simp
  have ng2: "\<not> ge32 (fixedUpdateDifference32 ?s2) (fixedUpdateRate32 ?s2)"
    using hi2 by (simp only: d2 rate2 ge32.simps not_le)
  have "fixedUpdateLoop32 ?s2 = Some ?s2" using ng2 by (rule fixedUpdateLoop32_exit)
  then have "fixedUpdateLoop32 ?s1 = Some ?s2" using ge1 by (simp only: fixedUpdateLoop32_step)
  then have l: "fixedUpdateLoop32 s = Some ?s2" using ge0 by (simp only: fixedUpdateLoop32_step)
  have "drainedBy 0 ?s2 ?s2" using ng2 by (rule drainedBy_0)
  with ge1 have "drainedBy (Suc 0) ?s1 ?s2" by (rule drainedBy_Suc)
  with ge0 have "drainedBy (Suc (Suc 0)) s ?s2" by (rule drainedBy_Suc)
  then have "drainedBy 2 s ?s2" by (simp only: numeral_2_eq_2)
  then show ?thesis using l d2 m20 hi2 by blast
qed

subsection \<open>One frame of the timing fields\<close>

lemma entry_fields [simp]:
  "fixedUpdateDifference32 (accumulate32 (clock32 now s)) =
     add32 (fixedUpdateDifference32 s) (sub32 now (lastFrameTime32 s))"
  "fixedUpdateRate32 (accumulate32 (clock32 now s)) = fixedUpdateRate32 s"
  "timeScale32 (accumulate32 (clock32 now s)) = timeScale32 s"
  "fixedUpdates32 (accumulate32 (clock32 now s)) = fixedUpdates32 s"
  "lastFrameTime32 (accumulate32 (clock32 now s)) = now"
  "time32 (accumulate32 (clock32 now s)) = now"
  "timeStep32 (accumulate32 (clock32 now s)) = sub32 now (lastFrameTime32 s)"
  by (simp_all add: accumulate32_def clock32_def)

lemma Tick32_scene: "Tick32 True now s = fixedUpdateLoop32 (accumulate32 (clock32 now s))"
  by (simp add: Tick32_def)

lemma Tick32_no_scene: "Tick32 False now s = Some (clock32 now s)"
  by (simp add: Tick32_def)

lemma entry_not_negative:
  assumes "\<not> negative32 (fixedUpdateDifference32 s)" and "ge32 now (lastFrameTime32 s)"
  shows "\<not> negative32 (fixedUpdateDifference32 (accumulate32 (clock32 now s)))"
proof -
  have "\<not> negative32 (sub32 now (lastFrameTime32 s))"
    using assms(2) by (rule sub32_ge_not_negative)
  with assms(1) show ?thesis by (simp add: add32_not_negative)
qed


subsection \<open>Rounding evaluated\<close>

lemma roundAt_at:
  assumes "2 ^ n \<le> k" and "k < 2 ^ Suc n"
  shows "roundAt s k =
    (if 2 ^ 277 \<le> roundEven (max s (Suc n - 24)) k div 2 ^ s then PosInf
     else Finite (roundEven (max s (Suc n - 24)) k div 2 ^ s))"
proof -
  have "bits k = Suc n" using assms by (rule bits_eqI)
  moreover have "0 \<le> k" using assms(1) by (rule order_trans [rotated]) simp
  ultimately show ?thesis by (simp add: roundAt_def Let_def)
qed

lemma round32_at:
  assumes "2 ^ n \<le> x" and "x < 2 ^ Suc n"
  shows "round32 x =
    (if 2 ^ 277 \<le> roundEven (Suc n - 24) x then PosInf else Finite (roundEven (Suc n - 24) x))"
  unfolding round32_def using assms by (simp add: roundAt_at)

lemma round32_0: "round32 0 = Finite 0"
  by (simp add: round32_def roundAt_def Let_def roundEven_def)

lemma add32_0: "add32 (Finite 0) (Finite a) = round32 a"
  by simp

lemma sub32_0: "sub32 (Finite a) (Finite 0) = round32 a"
  by (simp add: sub32_def)

lemma round32_frame36: "round32 (14913081 * 2 ^ 120) = Finite (14913081 * 2 ^ 120)"
  by (subst round32_at [of 143]) (simp_all add: roundEven_def Let_def)

lemma round32_frame36_1:
  "round32 (14913081 * 2 ^ 120 - 11930465 * 2 ^ 119) = Finite (8947848 * 2 ^ 120)"
  by (subst round32_at [of 143]) (simp_all add: roundEven_def Let_def)

lemma round32_frame36_2:
  "round32 (8947848 * 2 ^ 120 - 11930465 * 2 ^ 119) = Finite (5965231 * 2 ^ 119)"
  by (subst round32_at [of 141]) (simp_all add: roundEven_def Let_def)



lemma round32_second: "round32 (2 ^ 149) = Finite (2 ^ 149)"
  by (subst round32_at [of 149]) (simp_all add: roundEven_def Let_def)

lemma mul32_initial:
  "mul32 (Finite (11930465 * 2 ^ 119)) (Finite (2 ^ 149)) = Finite (11930465 * 2 ^ 119)"
  unfolding mul32.simps by (subst roundAt_at [of 291]) (simp_all add: roundEven_def Let_def)

lemma initial32_fields [simp]:
  "lastFrameTime32 initial32 = Finite 0"
  "fixedUpdateRate32 initial32 = Finite (11930465 * 2 ^ 119)"
  "fixedUpdateDifference32 initial32 = Finite 0"
  "timeScale32 initial32 = Finite (2 ^ 149)"
  "fixedUpdates32 initial32 = []"
  by (simp_all add: initial32_def)

lemma entry_frame36:
  "add32 (fixedUpdateDifference32 initial32) (sub32 frame36 (lastFrameTime32 initial32)) =
     Finite (14913081 * 2 ^ 120)"
  unfolding initial32_fields frame36_def sub32_0 round32_frame36 add32_0 ..


lemma entry_second:
  "add32 (fixedUpdateDifference32 initial32) (sub32 (Finite (2 ^ 149)) (lastFrameTime32 initial32)) =
     Finite (2 ^ 149)"
  unfolding initial32_fields sub32_0 round32_second add32_0 ..

subsection \<open>The first frame at a thirty-sixth of a second\<close>

lemma after36_fields [simp]:
  "lastFrameTime32 after36 = frame36"
  "fixedUpdateRate32 after36 = Finite (11930465 * 2 ^ 119)"
  "fixedUpdateDifference32 after36 = Finite (5965231 * 2 ^ 119)"
  "time32 after36 = frame36"
  "timeStep32 after36 = frame36"
  "timeScale32 after36 = Finite (2 ^ 149)"
  "fixedUpdates32 after36 = [Finite (11930465 * 2 ^ 119), Finite (11930465 * 2 ^ 119)]"
  by (simp_all add: after36_def)

lemma frame36_run:
  defines "s0 \<equiv> accumulate32 (clock32 frame36 initial32)"
  shows "fixedUpdateDifference32 s0 = Finite (14913081 * 2 ^ 120)"
    and "fixedUpdateDifference32 (drainStep32 s0) = Finite (8947848 * 2 ^ 120)"
    and "fixedUpdateDifference32 (drainStep32 (drainStep32 s0)) = Finite (5965231 * 2 ^ 119)"
    and "fixedUpdateRate32 s0 = Finite (11930465 * 2 ^ 119)"
    and "ge32 (fixedUpdateDifference32 s0) (fixedUpdateRate32 s0)"
    and "ge32 (fixedUpdateDifference32 (drainStep32 s0)) (fixedUpdateRate32 (drainStep32 s0))"
    and "\<not> ge32 (fixedUpdateDifference32 (drainStep32 (drainStep32 s0)))
             (fixedUpdateRate32 (drainStep32 (drainStep32 s0)))"
proof -
  show d0: "fixedUpdateDifference32 s0 = Finite (14913081 * 2 ^ 120)"
    unfolding s0_def by (simp only: entry_fields entry_frame36)
  show r0: "fixedUpdateRate32 s0 = Finite (11930465 * 2 ^ 119)"
    unfolding s0_def by (simp only: entry_fields initial32_fields)
  show d1: "fixedUpdateDifference32 (drainStep32 s0) = Finite (8947848 * 2 ^ 120)"
    by (simp only: drainStep32_fields d0 r0 sub32_Finite round32_frame36_1)
  have r1: "fixedUpdateRate32 (drainStep32 s0) = Finite (11930465 * 2 ^ 119)"
    using r0 by (simp only: drainStep32_fields)
  have "fixedUpdateDifference32 (drainStep32 (drainStep32 s0)) =
      sub32 (fixedUpdateDifference32 (drainStep32 s0)) (fixedUpdateRate32 (drainStep32 s0))"
    by (rule drainStep32_fields)
  then show d2: "fixedUpdateDifference32 (drainStep32 (drainStep32 s0)) = Finite (5965231 * 2 ^ 119)"
    by (simp only: d1 r1 sub32_Finite round32_frame36_2)
  show "ge32 (fixedUpdateDifference32 s0) (fixedUpdateRate32 s0)"
    unfolding d0 r0 by simp
  show "ge32 (fixedUpdateDifference32 (drainStep32 s0)) (fixedUpdateRate32 (drainStep32 s0))"
    unfolding d1 r1 by simp
  have r2: "fixedUpdateRate32 (drainStep32 (drainStep32 s0)) = Finite (11930465 * 2 ^ 119)"
    using r1 by (simp only: drainStep32_fields)
  show "\<not> ge32 (fixedUpdateDifference32 (drainStep32 (drainStep32 s0)))
             (fixedUpdateRate32 (drainStep32 (drainStep32 s0)))"
    unfolding d2 r2 by simp
qed

lemma sub32_frame36: "sub32 frame36 (Finite 0) = frame36"
  by (simp only: frame36_def sub32_0 round32_frame36)

lemma Tick32_frame36: "Tick32 True frame36 initial32 = Some after36"
proof -
  let ?s0 = "accumulate32 (clock32 frame36 initial32)"
  let ?s2 = "drainStep32 (drainStep32 ?s0)"
  have "fixedUpdateLoop32 ?s2 = Some ?s2"
    using frame36_run(7) by (rule fixedUpdateLoop32_exit)
  then have "fixedUpdateLoop32 (drainStep32 ?s0) = Some ?s2"
    using frame36_run(6) by (simp only: fixedUpdateLoop32_step)
  then have l: "fixedUpdateLoop32 ?s0 = Some ?s2"
    using frame36_run(5) by (simp only: fixedUpdateLoop32_step)
  have "?s2 = after36"
  proof (rule timing.equality)
    show "fixedUpdateDifference32 ?s2 = fixedUpdateDifference32 after36"
      by (simp only: frame36_run(3) after36_fields)
    show "fixedUpdates32 ?s2 = fixedUpdates32 after36"
      by (simp only: drainStep32_fields entry_fields initial32_fields mul32_initial
          after36_fields append_Nil append_Cons)
  qed (simp_all add: sub32_frame36)
  then show ?thesis using l by (simp only: Tick32_scene)
qed

lemma accumulatorAfter_frame36:
  "accumulatorAfter 1 (accumulate32 (clock32 frame36 initial32)) = Some (Finite (8947848 * 2 ^ 120))"
  using frame36_run(5) by (simp only: One_nat_def accumulatorAfter.simps if_True frame36_run(2))


section \<open>Binary32: the numbers of the format and the loop that never ends\<close>
















text \<open>
  A first frame of one second makes 89 fixed updates and leaves \<^verbatim>\<open>11929119 * 2^-30\<close> s,
  all but a rate, where exact arithmetic with a rate of one ninetieth makes 90 and leaves
  nothing.
\<close>

lemmas round32_range =
  round32_at [of 142] round32_at [of 143] round32_at [of 144] round32_at [of 145]
  round32_at [of 146] round32_at [of 147] round32_at [of 148] round32_at [of 149]

lemma Tick32_one_second:
  "\<exists>s'. Tick32 True (Finite (2 ^ 149)) initial32 = Some s' \<and>
     length (fixedUpdates32 s') = 89 \<and>
     fixedUpdateDifference32 s' = Finite (11929119 * 2 ^ 119)"
  unfolding Tick32_scene
  by (simp add: fixedUpdateLoop32_step fixedUpdateLoop32_exit drainStep32_def
      accumulate32_def clock32_def initial32_def sub32_def round32_range round32_0
      roundEven_def Let_def mul32_initial [simplified])

section \<open>The game state machine\<close>

text \<open>
  C1. Start in any state whose game state is \<open>Stopped\<close> and make any sequence of
  \<^verbatim>\<open>EnterPlayMode\<close> and \<^verbatim>\<open>ExitPlayMode\<close> calls, each \<^verbatim>\<open>EnterPlayMode\<close> with
  any clock reading and any answer of \<^verbatim>\<open>OnInit\<close>. The values written to \<open>gameState\<close>, in order and up to the end of
  the run or the crash that ends it, follow the graph Stopped to Loading to Playing to
  Stopped, with Loading to Stopped. And when the state reached is \<open>Playing\<close> or
  \<open>Loading\<close>, one more \<^verbatim>\<open>EnterPlayMode\<close> returns, calls no scene's \<^verbatim>\<open>OnInit\<close> and
  leaves the game state as it is.
\<close>

theorem play_mode_graph:
  assumes "gameState s = Stopped"
  shows "followsGraph Stopped (gameStateWrites (newEvents s (final (run calls s)))) \<and>
         (gameState (final (run calls s)) = Playing \<or>
          gameState (final (run calls s)) = Loading \<longrightarrow>
            (\<exists>s'. EnterPlayMode e now (final (run calls s)) = Done s' \<and>
                  filter isOnInit (newEvents (final (run calls s)) s') = [] \<and>
                  gameState s' = gameState (final (run calls s))))"
proof -
  obtain evs where evs: "trace (final (run calls s)) = trace s @ evs"
      "followsGraph (gameState s) (gameStateWrites evs)"
    using run_path [of s calls] unfolding pathOf_def by blast
  then have "followsGraph Stopped (gameStateWrites (newEvents s (final (run calls s))))"
    using assms by simp
  moreover have "gameState (final (run calls s)) = Playing \<or>
          gameState (final (run calls s)) = Loading \<longrightarrow>
            (\<exists>s'. EnterPlayMode e now (final (run calls s)) = Done s' \<and>
                  filter isOnInit (newEvents (final (run calls s)) s') = [] \<and>
                  gameState s' = gameState (final (run calls s)))"
    by (auto simp: EnterPlayMode_again)
  ultimately show ?thesis by blast
qed

theorem play_mode_graph_witness:
  "gameState ready = Stopped \<and>
   followsGraph Stopped (gameStateWrites (newEvents ready (final (run
     [Call_EnterPlayMode envBad 1, Call_EnterPlayMode env0 2, Call_ExitPlayMode,
      Call_EnterPlayMode env0 3]
     ready)))) \<and>
   gameState (final (run
     [Call_EnterPlayMode envBad 1, Call_EnterPlayMode env0 2, Call_ExitPlayMode,
      Call_EnterPlayMode env0 3]
     ready)) = Playing \<and>
   (\<exists>s'. EnterPlayMode env0 4 (final (run
     [Call_EnterPlayMode envBad 1, Call_EnterPlayMode env0 2, Call_ExitPlayMode,
      Call_EnterPlayMode env0 3]
     ready)) = Done s' \<and>
     filter isOnInit (newEvents (final (run
     [Call_EnterPlayMode envBad 1, Call_EnterPlayMode env0 2, Call_ExitPlayMode,
      Call_EnterPlayMode env0 3]
       ready)) s') = [] \<and>
     gameState s' = Playing)"
proof -
  have g: "gameState ready = Stopped" by (simp add: ready_simps)
  have p: "gameState (final (run
     [Call_EnterPlayMode envBad 1, Call_EnterPlayMode env0 2, Call_ExitPlayMode,
      Call_EnterPlayMode env0 3]
     ready)) = Playing"
    by (subst run_example) simp
  show ?thesis
    using g p play_mode_graph [OF g, of
      "[Call_EnterPlayMode envBad 1, Call_EnterPlayMode env0 2, Call_ExitPlayMode,
        Call_EnterPlayMode env0 3]" env0 4]
    by simp
qed

text \<open>
  C3, as the claim states it, fails: \<^verbatim>\<open>EnterPlayMode\<close> assigns \<open>lastFrameTime\<close>
  before it looks at the game state. In play mode since clock reading 1, a second call at
  clock reading 5 moves \<open>lastFrameTime\<close>.
\<close>

theorem EnterPlayMode_when_playing_counterexample:
  "gameState playing0 = Playing \<and>
   lastFrameTime (final (EnterPlayMode env0 5 playing0)) \<noteq> lastFrameTime playing0"
  by (simp add: playing0_eq EnterPlayMode_again)

text \<open>
  C3, amended. When the game state is \<open>Playing\<close> or \<open>Loading\<close>, \<^verbatim>\<open>EnterPlayMode\<close>
  returns, logs one warning and sets \<open>lastFrameTime\<close> to the clock reading; every
  other field (game state, window and scene, pending path, accumulator, subsystems) stays
  as it is, and nothing but the warning is added to the trace: no physics
  reinitialisation, no scene call.
\<close>

theorem EnterPlayMode_when_playing:
  assumes "gameState s = Playing \<or> gameState s = Loading"
  shows "EnterPlayMode e now s =
           Done (s\<lparr>lastFrameTime := now,
                   trace := trace s @ [Logger_Log WARNING
                     ''Cannot enter play mode if is already in play mode or is loading.'']\<rparr>)"
  using assms by (rule EnterPlayMode_again)

theorem EnterPlayMode_when_playing_witness:
  "(gameState playing0 = Playing \<or> gameState playing0 = Loading) \<and>
   EnterPlayMode env0 5 playing0 =
     Done (playing0\<lparr>lastFrameTime := 5,
             trace := trace playing0 @ [Logger_Log WARNING
               ''Cannot enter play mode if is already in play mode or is loading.'']\<rparr>)"
proof -
  have g: "gameState playing0 = Playing \<or> gameState playing0 = Loading"
    by (simp add: playing0_eq)
  show ?thesis using g EnterPlayMode_when_playing [OF g, of env0 5] by simp
qed

text \<open>
  C4. Entering play mode from \<open>Stopped\<close> with a current scene whose \<^verbatim>\<open>OnInit\<close>
  returns false: the call returns with the game state at \<open>Loading\<close>, having written
  \<open>Loading\<close> (and nothing else) to the game state, reinitialised physics, called
  \<^verbatim>\<open>OnInit\<close>, logged a critical error and called the scene's \<^verbatim>\<open>OnExit\<close>, in this
  order.
\<close>

theorem EnterPlayMode_OnInit_fails:
  assumes "gameState s = Stopped" and "GetCurrentScene s = Some sc" and "\<not> OnInit e sc"
  shows "\<exists>s'. EnterPlayMode e now s = Done s' \<and> gameState s' = Loading \<and>
           newEvents s s' =
             [Write_gameState Loading, PhysicsManager_ReInit, Scene_OnInit sc,
              Logger_Log CRITICAL ''Cannot enter play mode. Scene OnInit failed'',
              Scene_OnExit sc]"
  by (simp add: EnterPlayMode_failure [OF assms])

theorem EnterPlayMode_OnInit_fails_witness:
  "gameState ready = Stopped \<and> GetCurrentScene ready = Some sceneA \<and> \<not> OnInit envBad sceneA \<and>
   (\<exists>s'. EnterPlayMode envBad 1 ready = Done s' \<and> gameState s' = Loading \<and>
           newEvents ready s' =
             [Write_gameState Loading, PhysicsManager_ReInit, Scene_OnInit sceneA,
              Logger_Log CRITICAL ''Cannot enter play mode. Scene OnInit failed'',
              Scene_OnExit sceneA])"
proof -
  have a: "gameState ready = Stopped" and b: "GetCurrentScene ready = Some sceneA"
    by (simp_all add: ready_simps)
  have c: "\<not> OnInit envBad sceneA" by (simp add: envBad_def)
  show ?thesis using a b c EnterPlayMode_OnInit_fails [OF a b c, of 1] by simp
qed

section \<open>Queueing a scene switch\<close>

text \<open>
  C5. Outside \<open>Playing\<close>, \<^verbatim>\<open>QueueSceneSwitch\<close> returns false and the engine is
  unchanged. In \<open>Playing\<close> it returns true and the pending path is the argument; apart
  from the record of that write, nothing else changes.
\<close>

theorem QueueSceneSwitch_result:
  "(gameState s \<noteq> Playing \<longrightarrow> QueueSceneSwitch p s = (False, s)) \<and>
   (gameState s = Playing \<longrightarrow>
      QueueSceneSwitch p s =
        (True, s\<lparr>queuedScene := p, trace := trace s @ [Write_queuedScene p]\<rparr>))"
  by (simp add: QueueSceneSwitch_def IsPlayMode_def emit_def)

theorem QueueSceneSwitch_result_witness:
  "gameState ready \<noteq> Playing \<and> QueueSceneSwitch ''b.scene'' ready = (False, ready) \<and>
   gameState playing0 = Playing \<and>
   QueueSceneSwitch ''b.scene'' playing0 =
     (True, playing0\<lparr>queuedScene := ''b.scene'',
              trace := trace playing0 @ [Write_queuedScene ''b.scene'']\<rparr>)"
proof -
  have a: "gameState ready \<noteq> Playing" by (simp add: ready_simps)
  have b: "gameState playing0 = Playing" by (simp add: playing0_eq)
  show ?thesis
    using a b QueueSceneSwitch_result [of ready "''b.scene''"]
      QueueSceneSwitch_result [of playing0 "''b.scene''"]
    by simp
qed

section \<open>The queued scene switch\<close>





section \<open>The fixed update\<close>

text \<open>
  C7. The arithmetic is that of binary32. In a frame with a scene installed, the
  accumulator that enters the loop is the old accumulator plus the time step
  \<open>now - lastFrameTime\<close>, unscaled: the time scale enters only the argument of the fixed
  update.

  First: when the rate is positive and the accumulator entering the loop is two and a half
  rates, or within a quarter of a rate of that, the frame returns after exactly two fixed
  updates, each with \<open>fixedUpdateRate * timeScale\<close>, and leaves the accumulator at
  least zero and below the rate. (Two and a half times the initial rate is not a number of the
  format; the nearest one is \<open>frame36\<close>, the input of the witness.)

  Second: whenever the frame returns, it has made some number \<open>n\<close> of fixed updates, the
  accumulator is what \<open>n\<close> subtractions of the rate, each rounded to binary32, leave of
  the value that entered the loop, it is below the rate, and \<open>lastFrameTime\<close> is the
  clock reading.

  Third: if the accumulator was not negative before the frame and the clock did not go
  back, the accumulator is not negative after any number of iterations of the loop, whether
  or not the loop ever ends.
\<close>

theorem fixed_update_drain32:
  "(fixedUpdateRate32 s = Finite r \<and> 0 < r \<and>
    add32 (fixedUpdateDifference32 s) (sub32 now (lastFrameTime32 s)) = Finite a \<and>
    9 * r \<le> 4 * a \<and> 4 * a \<le> 11 * r \<longrightarrow>
      (\<exists>t a'. Tick32 True now s = Some t \<and>
         fixedUpdates32 t =
           fixedUpdates32 s @ replicate 2 (mul32 (fixedUpdateRate32 s) (timeScale32 s)) \<and>
         fixedUpdateDifference32 t = Finite a' \<and> 0 \<le> a' \<and> a' < r)) \<and>
   (Tick32 True now s = Some s' \<longrightarrow>
      (\<exists>n. fixedUpdates32 s' =
             fixedUpdates32 s @ replicate n (mul32 (fixedUpdateRate32 s) (timeScale32 s)) \<and>
           fixedUpdateDifference32 s' =
             ((\<lambda>x. sub32 x (fixedUpdateRate32 s)) ^^ n)
               (add32 (fixedUpdateDifference32 s) (sub32 now (lastFrameTime32 s))) \<and>
           accumulatorAfter n (accumulate32 (clock32 now s)) =
             Some (fixedUpdateDifference32 s') \<and>
           \<not> ge32 (fixedUpdateDifference32 s') (fixedUpdateRate32 s) \<and>
           lastFrameTime32 s' = now)) \<and>
   (\<not> negative32 (fixedUpdateDifference32 s) \<and> ge32 now (lastFrameTime32 s) \<and>
    accumulatorAfter k (accumulate32 (clock32 now s)) = Some acc \<longrightarrow>
      \<not> negative32 acc)"
proof (intro conjI impI)
  let ?s0 = "accumulate32 (clock32 now s)"
  assume h: "fixedUpdateRate32 s = Finite r \<and> 0 < r \<and>
    add32 (fixedUpdateDifference32 s) (sub32 now (lastFrameTime32 s)) = Finite a \<and>
    9 * r \<le> 4 * a \<and> 4 * a \<le> 11 * r"
  then have "\<bar>a\<bar> < 2 ^ 277" using add32_Finite_bound by blast
  then have a: "a < 2 ^ 277" by simp
  have "fixedUpdateRate32 ?s0 = Finite r" "fixedUpdateDifference32 ?s0 = Finite a"
    using h by simp_all
  then obtain t a' where t: "fixedUpdateLoop32 ?s0 = Some t" "drainedBy 2 ?s0 t"
      "fixedUpdateDifference32 t = Finite a'" "0 \<le> a'" "a' < r"
    using fixedUpdateLoop32_twice [of ?s0 r a] h a by blast
  have "fixedUpdates32 t =
      fixedUpdates32 s @ replicate 2 (mul32 (fixedUpdateRate32 s) (timeScale32 s))"
    using t(2) by (simp add: drainedBy_def)
  then show "\<exists>t a'. Tick32 True now s = Some t \<and>
         fixedUpdates32 t =
           fixedUpdates32 s @ replicate 2 (mul32 (fixedUpdateRate32 s) (timeScale32 s)) \<and>
         fixedUpdateDifference32 t = Finite a' \<and> 0 \<le> a' \<and> a' < r"
    using t(1,3,4,5) unfolding Tick32_scene by blast
next
  let ?s0 = "accumulate32 (clock32 now s)"
  assume "Tick32 True now s = Some s'"
  then have "fixedUpdateLoop32 ?s0 = Some s'" by (simp only: Tick32_scene)
  then obtain n where "drainedBy n ?s0 s'" using fixedUpdateLoop32_Some by blast
  then have "fixedUpdates32 s' =
             fixedUpdates32 s @ replicate n (mul32 (fixedUpdateRate32 s) (timeScale32 s)) \<and>
           fixedUpdateDifference32 s' =
             ((\<lambda>x. sub32 x (fixedUpdateRate32 s)) ^^ n)
               (add32 (fixedUpdateDifference32 s) (sub32 now (lastFrameTime32 s))) \<and>
           accumulatorAfter n ?s0 = Some (fixedUpdateDifference32 s') \<and>
           \<not> ge32 (fixedUpdateDifference32 s') (fixedUpdateRate32 s) \<and>
           lastFrameTime32 s' = now"
    unfolding drainedBy_def entry_fields by blast
  then show "\<exists>n. fixedUpdates32 s' =
             fixedUpdates32 s @ replicate n (mul32 (fixedUpdateRate32 s) (timeScale32 s)) \<and>
           fixedUpdateDifference32 s' =
             ((\<lambda>x. sub32 x (fixedUpdateRate32 s)) ^^ n)
               (add32 (fixedUpdateDifference32 s) (sub32 now (lastFrameTime32 s))) \<and>
           accumulatorAfter n ?s0 = Some (fixedUpdateDifference32 s') \<and>
           \<not> ge32 (fixedUpdateDifference32 s') (fixedUpdateRate32 s) \<and>
           lastFrameTime32 s' = now"
    by blast
next
  assume h: "\<not> negative32 (fixedUpdateDifference32 s) \<and> ge32 now (lastFrameTime32 s) \<and>
    accumulatorAfter k (accumulate32 (clock32 now s)) = Some acc"
  then have "\<not> negative32 (fixedUpdateDifference32 (accumulate32 (clock32 now s)))"
    using entry_not_negative by blast
  then show "\<not> negative32 acc" using h accumulatorAfter_not_negative by blast
qed

theorem fixed_update_drain32_witness:
  "fixedUpdateRate32 initial32 = Finite (11930465 * 2 ^ 119) \<and>
   (0::int) < 11930465 * 2 ^ 119 \<and>
   add32 (fixedUpdateDifference32 initial32) (sub32 frame36 (lastFrameTime32 initial32)) =
     Finite (14913081 * 2 ^ 120) \<and>
   (9::int) * (11930465 * 2 ^ 119) \<le> 4 * (14913081 * 2 ^ 120) \<and>
   (4::int) * (14913081 * 2 ^ 120) \<le> 11 * (11930465 * 2 ^ 119) \<and>
   (\<exists>t a'. Tick32 True frame36 initial32 = Some t \<and>
      fixedUpdates32 t =
        fixedUpdates32 initial32 @
          replicate 2 (mul32 (fixedUpdateRate32 initial32) (timeScale32 initial32)) \<and>
      fixedUpdateDifference32 t = Finite a' \<and> 0 \<le> a' \<and> a' < 11930465 * 2 ^ 119) \<and>
   Tick32 True frame36 initial32 = Some after36 \<and>
   (\<exists>n. fixedUpdates32 after36 =
          fixedUpdates32 initial32 @
            replicate n (mul32 (fixedUpdateRate32 initial32) (timeScale32 initial32)) \<and>
        fixedUpdateDifference32 after36 =
          ((\<lambda>x. sub32 x (fixedUpdateRate32 initial32)) ^^ n)
            (add32 (fixedUpdateDifference32 initial32)
               (sub32 frame36 (lastFrameTime32 initial32))) \<and>
        accumulatorAfter n (accumulate32 (clock32 frame36 initial32)) =
          Some (fixedUpdateDifference32 after36) \<and>
        \<not> ge32 (fixedUpdateDifference32 after36) (fixedUpdateRate32 initial32) \<and>
        lastFrameTime32 after36 = frame36) \<and>
   \<not> negative32 (fixedUpdateDifference32 initial32) \<and>
   ge32 frame36 (lastFrameTime32 initial32) \<and>
   accumulatorAfter 1 (accumulate32 (clock32 frame36 initial32)) =
     Some (Finite (8947848 * 2 ^ 120)) \<and>
   \<not> negative32 (Finite (8947848 * 2 ^ 120))"
proof -
  have h1: "fixedUpdateRate32 initial32 = Finite (11930465 * 2 ^ 119) \<and>
      (0::int) < 11930465 * 2 ^ 119 \<and>
      add32 (fixedUpdateDifference32 initial32) (sub32 frame36 (lastFrameTime32 initial32)) =
        Finite (14913081 * 2 ^ 120) \<and>
      (9::int) * (11930465 * 2 ^ 119) \<le> 4 * (14913081 * 2 ^ 120) \<and>
      (4::int) * (14913081 * 2 ^ 120) \<le> 11 * (11930465 * 2 ^ 119)"
    unfolding entry_frame36 by simp
  have h2: "Tick32 True frame36 initial32 = Some after36"
    by (rule Tick32_frame36)
  have h3: "\<not> negative32 (fixedUpdateDifference32 initial32) \<and>
      ge32 frame36 (lastFrameTime32 initial32) \<and>
      accumulatorAfter 1 (accumulate32 (clock32 frame36 initial32)) =
        Some (Finite (8947848 * 2 ^ 120))"
    unfolding accumulatorAfter_frame36 by (simp add: frame36_def)
  show ?thesis
    using h1 h2 h3
      fixed_update_drain32 [of initial32 "11930465 * 2 ^ 119" frame36 "14913081 * 2 ^ 120"
        after36 1 "Finite (8947848 * 2 ^ 120)"]
    by blast
qed




section \<open>Overwriting and cancelling a queued switch\<close>



section \<open>Scene installation and the subsystems\<close>

text \<open>
  C9, at one input. \<^verbatim>\<open>Init\<close> with a fresh window, a first scene installed, play mode
  entered, the game assembly loaded (one subsystem), a switch to \<^verbatim>\<open>b.scene\<close> queued:
  the next frame installs the new scene, and the whole trace, from \<^verbatim>\<open>Init\<close> on, holds
  no \<^verbatim>\<open>OnScenePreDestroy\<close>, \<^verbatim>\<open>OnScenePreInitialize\<close> or
  \<^verbatim>\<open>OnScenePostInitialize\<close> of a subsystem and no registration of the engine on the new
  scene's signals. \<^verbatim>\<open>Init\<close> never adds \<^verbatim>\<open>Engine::OnWindowSetScene\<close> to the window's
  delegate: that statement is commented out in the source.
\<close>

theorem scene_switch_without_broadcast:
  "subsystems loaded0 = [Some weather0] \<and>
   (\<exists>s'. Tick env0 (101 / 100) loaded0 = Some (Done s') \<and>
      GetCurrentScene s' = Some sceneB \<and>
      filter isSwitchEvent (newEvents loaded0 s') =
        [Scene_OnExit sceneA, Window_SetScene (Some sceneB), PhysicsManager_ReInit,
         Scene_OnInit sceneB, Write_queuedScene []] \<and>
      filter isSceneBroadcast (trace s') = [])"
proof -
  let ?w = "window0\<lparr>windowScene := Some sceneA\<rparr>"
  let ?dt = "(101 / 100 - lastFrameTime loaded0) * timeScale loaded0"
  let ?s' = "updated ?dt sceneB
               (emits (tickEvents ?dt loaded0) (switched env0 ?w sceneA (clocked (101 / 100) loaded0)))"
  have new: "\<lparr>Path = queuedScene loaded0, document = ReadFile env0 (queuedScene loaded0)\<rparr> = sceneB"
    by (simp add: loaded0_simps sceneB_def env0_def)
  have "Tick env0 (101 / 100) loaded0 =
          Some (Done (updated ?dt
             \<lparr>Path = queuedScene loaded0, document = ReadFile env0 (queuedScene loaded0)\<rparr>
             (emits (tickEvents ?dt loaded0)
                (switched env0 ?w sceneA (clocked (101 / 100) loaded0)))))"
    by (rule Tick_switch) (simp_all add: loaded0_simps env0_def)
  then have t: "Tick env0 (101 / 100) loaded0 = Some (Done ?s')"
    unfolding new .
  have d: "delegateEvents ?w subs sc = []" for subs sc
    by (simp add: delegateEvents_def window0_def)
  have tr: "trace ?s' = trace loaded0 @
      ([JobSystem_Update, Scene_OnExit sceneA, Window_SetScene (Some sceneB),
        PhysicsManager_ReInit, Scene_OnInit sceneB, Write_queuedScene [],
        Subsystem_Tick weather0 (1 / 100), Window_Update (1 / 100),
        Input_Update, AudioManager_AudioUpdate])"
    by (simp add: updated_trace switched_trace d loaded0_simps tickEvents_def weather0_def
          sceneB_def env0_def)
  then have ne: "newEvents loaded0 ?s' =
       [JobSystem_Update, Scene_OnExit sceneA, Window_SetScene (Some sceneB),
        PhysicsManager_ReInit, Scene_OnInit sceneB, Write_queuedScene [],
        Subsystem_Tick weather0 (1 / 100), Window_Update (1 / 100),
        Input_Update, AudioManager_AudioUpdate]"
    by (rule newEvents_append)
  have "GetCurrentScene ?s' = Some sceneB"
    by (simp add: GetCurrentScene_def loaded0_simps sceneB_def env0_def)
  moreover have "filter isSwitchEvent (newEvents loaded0 ?s') =
        [Scene_OnExit sceneA, Window_SetScene (Some sceneB), PhysicsManager_ReInit,
         Scene_OnInit sceneB, Write_queuedScene []]"
    unfolding ne by simp
  moreover have "filter isSceneBroadcast (trace ?s') = []"
    unfolding tr by (simp add: loaded0_simps)
  ultimately show ?thesis
    using t by (simp add: loaded0_simps)
qed

end
